theory Spec2Isabelle
  imports Complex_Main "HOL-Library.Sublist" "HOL-Library.AList" "HOL-Library.Multiset"
    "HOL-Library.List_Lexorder"
begin

section \<open>JavaScript values\<close>

text \<open>
  The validator \<open>isValidAppSpec\<close> of \<open>lib/types/appspec.ts\<close> takes a value of type
  \<open>unknown\<close>. The values it can meet are those of a parsed JSON document, and
  \<open>undefined\<close>. Numbers are rationals here (a document holds no NaN and no infinity);
  an object is the list of its own properties, the first binding of a key being the one
  that is read.
\<close>

datatype jsval =
    JUndefined
  | JNull
  | JBool bool
  | JNum rat
  | JStr string
  | JArr "jsval list"
  | JObj "(string \<times> jsval) list"

text \<open>Truthiness, as \<open>!v\<close> and \<open>&&\<close> read it.\<close>

fun truthy :: "jsval \<Rightarrow> bool" where
  "truthy JUndefined = False"
| "truthy JNull = False"
| "truthy (JBool b) = b"
| "truthy (JNum r) = (r \<noteq> 0)"
| "truthy (JStr s) = (s \<noteq> [])"
| "truthy (JArr xs) = True"
| "truthy (JObj kvs) = True"

fun typeof :: "jsval \<Rightarrow> string" where
  "typeof JUndefined = ''undefined''"
| "typeof JNull = ''object''"
| "typeof (JBool b) = ''boolean''"
| "typeof (JNum r) = ''number''"
| "typeof (JStr s) = ''string''"
| "typeof (JArr xs) = ''object''"
| "typeof (JObj kvs) = ''object''"

fun isArray :: "jsval \<Rightarrow> bool" where
  "isArray (JArr xs) = True"
| "isArray v = False"

text \<open>
  Reading a property. On \<open>undefined\<close> and \<open>null\<close> the read throws a TypeError, which
  is the result \<open>None\<close>; it is the only exception the validator could raise. On an
  object a missing key reads as \<open>undefined\<close>. None of the keys the validator reads is
  a property of a boolean, a number, a string or an array, so the read gives
  \<open>undefined\<close> there.
\<close>

fun get :: "jsval \<Rightarrow> string \<Rightarrow> jsval option" where
  "get JUndefined k = None"
| "get JNull k = None"
| "get (JObj kvs) k = Some (case map_of kvs k of None \<Rightarrow> JUndefined | Some v \<Rightarrow> v)"
| "get v k = Some JUndefined"

text \<open>A member chain \<open>v.k1.k2\<close>.\<close>

fun rd :: "jsval \<Rightarrow> string list \<Rightarrow> jsval option" where
  "rd v [] = Some v"
| "rd v (k # ks) = Option.bind (get v k) (\<lambda>w. rd w ks)"

text \<open>A test on the value at the end of a member chain.\<close>

definition tst :: "(jsval \<Rightarrow> bool) \<Rightarrow> jsval \<Rightarrow> string list \<Rightarrow> bool option" where
  "tst P v ks = map_option P (rd v ks)"

text \<open>
  The chains \<open>a || b || ...\<close> and \<open>a && b && ...\<close>: operands are evaluated from the
  left, evaluation stops at the first one that decides, and an operand that throws makes
  the chain throw.
\<close>

fun any_of :: "bool option list \<Rightarrow> bool option" where
  "any_of [] = Some False"
| "any_of (c # cs) =
     (case c of None \<Rightarrow> None | Some True \<Rightarrow> Some True | Some False \<Rightarrow> any_of cs)"

fun all_of :: "bool option list \<Rightarrow> bool option" where
  "all_of [] = Some True"
| "all_of (c # cs) =
     (case c of None \<Rightarrow> None | Some False \<Rightarrow> Some False | Some True \<Rightarrow> all_of cs)"

text \<open>\<open>Array.prototype.every\<close>: stops at the first element the callback rejects.\<close>

fun every :: "(jsval \<Rightarrow> bool option) \<Rightarrow> jsval list \<Rightarrow> bool option" where
  "every f [] = Some True"
| "every f (x # xs) =
     (case f x of None \<Rightarrow> None | Some False \<Rightarrow> Some False | Some True \<Rightarrow> every f xs)"

text \<open>\<open>v.every(f)\<close>: a TypeError when \<open>v\<close> is no array.\<close>

fun call_every :: "(jsval \<Rightarrow> bool option) \<Rightarrow> jsval \<Rightarrow> bool option" where
  "call_every f (JArr xs) = every f xs"
| "call_every f v = None"

text \<open>\<open>lits.includes(v)\<close> for an array \<open>lits\<close> of string literals.\<close>

fun includes_lit :: "string list \<Rightarrow> jsval \<Rightarrow> bool" where
  "includes_lit lits (JStr s) = (s \<in> set lits)"
| "includes_lit lits v = False"

text \<open>\<open>if (c) return false\<close>, followed by the rest of the function.\<close>

fun reject_if :: "bool option \<Rightarrow> bool option \<Rightarrow> bool option" where
  "reject_if None rest = None"
| "reject_if (Some True) rest = Some False"
| "reject_if (Some False) rest = rest"

section \<open>The AppSpec validator\<close>

text \<open>The arrow function given to \<open>roles.every\<close>.\<close>

definition role_ok :: "jsval \<Rightarrow> bool option" where
  "role_ok role = all_of
     [Some (truthy role),
      Some (typeof role = ''object''),
      any_of [tst (\<lambda>v. v = JStr ''PATIENT'') role [''id''],
              tst (\<lambda>v. v = JStr ''STAFF'') role [''id'']],
      tst (\<lambda>v. typeof v = ''boolean'') role [''authRequired'']]"

definition validateRoles :: "jsval \<Rightarrow> bool option" where
  "validateRoles roles =
     reject_if (Some (\<not> isArray roles)) (call_every role_ok roles)"

definition validPageTypes :: "string list" where
  "validPageTypes =
     [''welcome'', ''form'', ''review'', ''success'', ''login'', ''list'', ''detail'']"

text \<open>The arrow function given to \<open>pages.every\<close>.\<close>

definition page_ok :: "jsval \<Rightarrow> bool option" where
  "page_ok page = all_of
     [Some (truthy page),
      Some (typeof page = ''object''),
      tst (\<lambda>v. typeof v = ''string'') page [''id''],
      tst (\<lambda>v. typeof v = ''string'') page [''route''],
      any_of [tst (\<lambda>v. v = JStr ''PATIENT'') page [''role''],
              tst (\<lambda>v. v = JStr ''STAFF'') page [''role'']],
      tst (includes_lit validPageTypes) page [''type''],
      tst (\<lambda>v. typeof v = ''string'') page [''title'']]"

definition validatePages :: "jsval \<Rightarrow> bool option" where
  "validatePages pages =
     reject_if (Some (\<not> isArray pages)) (call_every page_ok pages)"

definition validStates :: "string list" where
  "validStates = [''DRAFT'', ''SUBMITTED'', ''NEEDS_INFO'', ''APPROVED'', ''REJECTED'']"

text \<open>The arrow function given to \<open>wf.transitions.every\<close>.\<close>

definition transition_ok :: "jsval \<Rightarrow> bool option" where
  "transition_ok transition = all_of
     [Some (truthy transition),
      Some (typeof transition = ''object''),
      any_of [tst (\<lambda>v. typeof v = ''string'') transition [''from''],
              all_of [tst isArray transition [''from''],
                      Option.bind (get transition ''from'')
                        (call_every (\<lambda>s. Some (typeof s = ''string'')))]],
      tst (\<lambda>v. typeof v = ''string'') transition [''to''],
      tst isArray transition [''allowedRoles'']]"

definition validateWorkflow :: "jsval \<Rightarrow> bool option" where
  "validateWorkflow workflow =
     reject_if (Some (\<not> truthy workflow \<or> typeof workflow \<noteq> ''object''))
    (reject_if (any_of
        [tst (\<lambda>v. \<not> isArray v) workflow [''states''],
         tst (\<lambda>v. typeof v \<noteq> ''string'') workflow [''initialState''],
         tst (\<lambda>v. \<not> isArray v) workflow [''transitions'']])
    (reject_if (map_option Not
        (Option.bind (get workflow ''states'')
           (call_every (\<lambda>state. Some (includes_lit validStates state)))))
    (reject_if (tst (\<lambda>v. \<not> includes_lit validStates v) workflow [''initialState''])
       (Option.bind (get workflow ''transitions'') (call_every transition_ok)))))"

definition endpointNames :: "string list" where
  "endpointNames =
     [''createSubmission'', ''getSubmission'', ''resubmitSubmission'', ''staffLogin'',
      ''staffLogout'', ''staffSession'', ''listSubmissions'', ''getSubmissionDetail'',
      ''transitionSubmission'', ''trackEvent'']"

definition validateApi :: "jsval \<Rightarrow> bool option" where
  "validateApi api =
     reject_if (Some (\<not> truthy api \<or> typeof api \<noteq> ''object''))
       (all_of
          ([tst (\<lambda>v. v = JStr ''{{FASTFORM_API_URL}}'') api [''baseUrl''],
            tst truthy api [''endpoints''],
            tst (\<lambda>v. typeof v = ''object'') api [''endpoints'']]
           @ map (\<lambda>e. tst (\<lambda>v. typeof v = ''string'') api [''endpoints'', e])
               endpointNames))"

definition validTriggers :: "string list" where
  "validTriggers = [''pageview'', ''action'', ''submit'', ''transition'']"

text \<open>The arrow function given to \<open>a.events.every\<close>.\<close>

definition event_ok :: "jsval \<Rightarrow> bool option" where
  "event_ok event = all_of
     [Some (truthy event),
      Some (typeof event = ''object''),
      tst (\<lambda>v. typeof v = ''string'') event [''name''],
      tst (includes_lit validTriggers) event [''trigger'']]"

definition validateAnalytics :: "jsval \<Rightarrow> bool option" where
  "validateAnalytics analytics =
     reject_if (Some (\<not> truthy analytics \<or> typeof analytics \<noteq> ''object''))
    (reject_if (tst (\<lambda>v. \<not> isArray v) analytics [''events''])
       (Option.bind (get analytics ''events'') (call_every event_ok)))"

definition validateEnvironments :: "jsval \<Rightarrow> bool option" where
  "validateEnvironments environments =
     reject_if (Some (\<not> truthy environments \<or> typeof environments \<noteq> ''object''))
       (all_of
          [tst truthy environments [''staging''],
           tst (\<lambda>v. typeof v = ''object'') environments [''staging''],
           tst (\<lambda>v. typeof v = ''string'') environments [''staging'', ''domain''],
           tst (\<lambda>v. typeof v = ''string'') environments [''staging'', ''apiUrl''],
           tst truthy environments [''production''],
           tst (\<lambda>v. typeof v = ''object'') environments [''production''],
           tst (\<lambda>v. typeof v = ''string'') environments [''production'', ''domain''],
           tst (\<lambda>v. typeof v = ''string'') environments [''production'', ''apiUrl'']])"

text \<open>
  The result \<open>Some b\<close> is the boolean the function returns, \<open>None\<close> a TypeError
  thrown on the way.
\<close>

definition isValidAppSpec :: "jsval \<Rightarrow> bool option" where
  "isValidAppSpec obj =
     reject_if (Some (\<not> truthy obj \<or> typeof obj \<noteq> ''object''))
    (reject_if (any_of
        [tst (\<lambda>v. typeof v \<noteq> ''string'') obj [''id''],
         tst (\<lambda>v. v \<noteq> JStr ''0.3'') obj [''version''],
         tst (\<lambda>v. \<not> truthy v) obj [''meta''],
         tst (\<lambda>v. \<not> truthy v) obj [''theme''],
         tst (\<lambda>v. \<not> isArray v) obj [''roles''],
         tst (\<lambda>v. \<not> isArray v) obj [''pages''],
         tst (\<lambda>v. \<not> truthy v) obj [''workflow''],
         tst (\<lambda>v. \<not> truthy v) obj [''api''],
         tst (\<lambda>v. \<not> truthy v) obj [''analytics''],
         tst (\<lambda>v. \<not> truthy v) obj [''environments'']])
    (reject_if (any_of
        [tst (\<lambda>v. typeof v \<noteq> ''object'') obj [''meta''],
         tst (\<lambda>v. typeof v \<noteq> ''string'') obj [''meta'', ''name''],
         tst (\<lambda>v. typeof v \<noteq> ''string'') obj [''meta'', ''slug''],
         tst (\<lambda>v. typeof v \<noteq> ''string'') obj [''meta'', ''description''],
         tst (\<lambda>v. typeof v \<noteq> ''string'') obj [''meta'', ''orgId''],
         tst (\<lambda>v. typeof v \<noteq> ''string'') obj [''meta'', ''orgSlug'']])
    (reject_if (any_of
        [tst (\<lambda>v. typeof v \<noteq> ''object'') obj [''theme''],
         tst (\<lambda>v. v \<noteq> JStr ''healthcare-calm'') obj [''theme'', ''preset'']])
    (reject_if (map_option Not (Option.bind (get obj ''roles'') validateRoles))
    (reject_if (map_option Not (Option.bind (get obj ''pages'') validatePages))
    (reject_if (map_option Not (Option.bind (get obj ''workflow'') validateWorkflow))
    (reject_if (map_option Not (Option.bind (get obj ''api'') validateApi))
    (reject_if (map_option Not (Option.bind (get obj ''analytics'') validateAnalytics))
    (reject_if (map_option Not (Option.bind (get obj ''environments'') validateEnvironments))
       (Some True))))))))))"

subsection \<open>Documents and assignments\<close>

text \<open>
  Whether a computation returns: \<open>None\<close> stands for an exception thrown.
\<close>

definition returns :: "'a option \<Rightarrow> bool" where
  "returns c = (c \<noteq> None)"

text \<open>The document \<open>createValidAppSpec()\<close> of \<open>lib/types/appspec.test.ts\<close>.\<close>

definition valid_spec :: jsval where
  "valid_spec = JObj
    [(''id'', JStr ''123e4567-e89b-12d3-a456-426614174000''),
     (''version'', JStr ''0.3''),
     (''meta'', JObj
        [(''name'', JStr ''Test App''),
         (''slug'', JStr ''test-app''),
         (''description'', JStr ''A test application''),
         (''orgId'', JStr ''123e4567-e89b-12d3-a456-426614174001''),
         (''orgSlug'', JStr ''test-org'')]),
     (''theme'', JObj [(''preset'', JStr ''healthcare-calm'')]),
     (''roles'', JArr
        [JObj [(''id'', JStr ''PATIENT''), (''authRequired'', JBool False)],
         JObj [(''id'', JStr ''STAFF''), (''authRequired'', JBool True),
               (''routePrefix'', JStr ''/staff'')]]),
     (''pages'', JArr
        [JObj [(''id'', JStr ''welcome''), (''route'', JStr ''/''), (''role'', JStr ''PATIENT''),
               (''type'', JStr ''welcome''), (''title'', JStr ''Welcome'')],
         JObj [(''id'', JStr ''staff-login''), (''route'', JStr ''/staff/login''),
               (''role'', JStr ''STAFF''), (''type'', JStr ''login''),
               (''title'', JStr ''Staff Login'')]]),
     (''workflow'', JObj
        [(''states'', JArr [JStr ''DRAFT'', JStr ''SUBMITTED'', JStr ''NEEDS_INFO'',
                            JStr ''APPROVED'', JStr ''REJECTED'']),
         (''initialState'', JStr ''DRAFT''),
         (''transitions'', JArr
            [JObj [(''from'', JStr ''DRAFT''), (''to'', JStr ''SUBMITTED''),
                   (''allowedRoles'', JArr [JStr ''PATIENT''])],
             JObj [(''from'', JStr ''SUBMITTED''), (''to'', JStr ''APPROVED''),
                   (''allowedRoles'', JArr [JStr ''STAFF''])]])]),
     (''api'', JObj
        [(''baseUrl'', JStr ''{{FASTFORM_API_URL}}''),
         (''endpoints'', JObj
            [(''createSubmission'', JStr ''POST /api/apps/:appId/submissions''),
             (''getSubmission'', JStr ''GET /api/apps/:appId/submissions/:id''),
             (''resubmitSubmission'', JStr ''POST /api/apps/:appId/submissions/:id/resubmit''),
             (''staffLogin'', JStr ''POST /api/apps/:appId/staff/login''),
             (''staffLogout'', JStr ''POST /api/apps/:appId/staff/logout''),
             (''staffSession'', JStr ''GET /api/apps/:appId/staff/session''),
             (''listSubmissions'', JStr ''GET /api/apps/:appId/staff/inbox''),
             (''getSubmissionDetail'', JStr ''GET /api/apps/:appId/staff/submissions/:id''),
             (''transitionSubmission'',
                JStr ''POST /api/apps/:appId/staff/submissions/:id/transition''),
             (''trackEvent'', JStr ''POST /api/apps/:appId/events'')])]),
     (''analytics'', JObj
        [(''events'', JArr
            [JObj [(''name'', JStr ''page_view''), (''trigger'', JStr ''pageview''),
                   (''page'', JStr ''/'')],
             JObj [(''name'', JStr ''form_submit''), (''trigger'', JStr ''submit'')]])]),
     (''environments'', JObj
        [(''staging'', JObj
            [(''domain'', JStr ''test-app-test-org-staging.getfastform.com''),
             (''apiUrl'', JStr ''https://api-staging.getfastform.com'')]),
         (''production'', JObj
            [(''domain'', JStr ''test-app-test-org.getfastform.com''),
             (''apiUrl'', JStr ''https://api.getfastform.com'')])])]"

text \<open>
  Assignments to a document. \<open>set_prop k x\<close> is \<open>o[k] = x\<close> on an object,
  \<open>upd_in k f\<close> changes the value of the property \<open>k\<close> of an object that has
  it, \<open>upd_at i f\<close> the element \<open>i\<close> of an array that has it. So
  \<open>upd_in ''theme'' (set_prop ''logo'' x)\<close> is \<open>doc.theme.logo = x\<close>. A value
  of another shape is left as it is.
\<close>

fun set_prop :: "string \<Rightarrow> jsval \<Rightarrow> jsval \<Rightarrow> jsval" where
  "set_prop k x (JObj kvs) = JObj (AList.update k x kvs)"
| "set_prop k x v = v"

fun upd_in :: "string \<Rightarrow> (jsval \<Rightarrow> jsval) \<Rightarrow> jsval \<Rightarrow> jsval" where
  "upd_in k f (JObj kvs) = JObj (map (\<lambda>(k', w). (k', if k' = k then f w else w)) kvs)"
| "upd_in k f v = v"

fun upd_at :: "nat \<Rightarrow> (jsval \<Rightarrow> jsval) \<Rightarrow> jsval \<Rightarrow> jsval" where
  "upd_at i f (JArr xs) = JArr (if i < length xs then xs[i := f (xs ! i)] else xs)"
| "upd_at i f v = v"







text \<open>
  The valid document with a number as logo, a boolean as route prefix of its first role,
  a number as theme colours and a boolean as page of its first analytics event.
\<close>

definition spec_with_odd_optionals :: jsval where
  "spec_with_odd_optionals =
     upd_in ''theme'' (set_prop ''logo'' (JNum 42))
    (upd_in ''theme'' (set_prop ''colors'' (JNum 7))
    (upd_in ''roles'' (upd_at 0 (set_prop ''routePrefix'' (JBool False)))
    (upd_in ''analytics'' (upd_in ''events'' (upd_at 0 (set_prop ''page'' (JBool True))))
       valid_spec)))"

section \<open>The naming heuristic\<close>

text \<open>
  \<open>lib/utils/app-naming.ts\<close>. A JavaScript string is a sequence of UTF-16 code units,
  and the regular expressions of this module (none has the \<open>u\<close> flag), \<open>slice\<close>,
  \<open>charAt\<close>, \<open>length\<close> and \<open>lastIndexOf\<close> all work code unit by code unit. So a
  string is the list of its code units here; \<open>js\<close> gives the string of an ASCII literal.
\<close>

type_synonym jsstring = "nat list"

definition js :: "string \<Rightarrow> jsstring" where
  "js s = map of_char s"

text \<open>
  The case mappings and the canonical decomposition are tables of the JavaScript runtime,
  not code of this module: they are parameters. \<open>ascii_faithful\<close> says of such tables
  what the Unicode standard fixes for ASCII text, and \<open>ascii_tables\<close> are tables that
  change ASCII letters only.
\<close>

record unicode_tables =
  toLowerCase :: "jsstring \<Rightarrow> jsstring"
  toUpperCase :: "jsstring \<Rightarrow> jsstring"
  normalizeNFD :: "jsstring \<Rightarrow> jsstring"

definition ascii_lower :: "nat \<Rightarrow> nat" where
  "ascii_lower c = (if 65 \<le> c \<and> c \<le> 90 then c + 32 else c)"

definition ascii_upper :: "nat \<Rightarrow> nat" where
  "ascii_upper c = (if 97 \<le> c \<and> c \<le> 122 then c - 32 else c)"

definition is_ascii :: "jsstring \<Rightarrow> bool" where
  "is_ascii s = list_all (\<lambda>c. c \<le> 127) s"

definition ascii_faithful :: "unicode_tables \<Rightarrow> bool" where
  "ascii_faithful U \<longleftrightarrow>
     (\<forall>s. is_ascii s \<longrightarrow>
        toLowerCase U s = map ascii_lower s \<and>
        toUpperCase U s = map ascii_upper s \<and>
        normalizeNFD U s = s)"

definition ascii_tables :: unicode_tables where
  "ascii_tables =
     \<lparr>toLowerCase = map ascii_lower, toUpperCase = map ascii_upper, normalizeNFD = (\<lambda>s. s)\<rparr>"

definition COMMON_PREFIXES :: "jsstring list" where
  "COMMON_PREFIXES = map js
     [''i need an'', ''i need a'', ''build me an'', ''build me a'', ''create an'',
      ''create a'', ''make me an'', ''make me a'', ''i want an'', ''i want a'']"

definition NAME_MAX_LENGTH :: nat where
  "NAME_MAX_LENGTH = 50"

definition SLUG_MAX_LENGTH :: nat where
  "SLUG_MAX_LENGTH = 30"

record HeuristicNameResult =
  name :: jsstring
  slug :: jsstring

text \<open>
  The class \<open>\s\<close> of a regular expression, which is also what \<open>trim\<close> removes:
  the white space and line terminator code points of ECMAScript.
\<close>

definition isWhiteSpace :: "nat \<Rightarrow> bool" where
  "isWhiteSpace c \<longleftrightarrow>
     (9 \<le> c \<and> c \<le> 13) \<or> c = 32 \<or> c = 160 \<or> c = 5760 \<or> (8192 \<le> c \<and> c \<le> 8202)
     \<or> c = 8232 \<or> c = 8233 \<or> c = 8239 \<or> c = 8287 \<or> c = 12288 \<or> c = 65279"

text \<open>\<open>s.replace(/[P]+/g, r)\<close>: every maximal run of code units in \<open>P\<close> becomes \<open>r\<close>.\<close>

function replace_runs :: "(nat \<Rightarrow> bool) \<Rightarrow> jsstring \<Rightarrow> jsstring \<Rightarrow> jsstring" where
  "replace_runs P r [] = []"
| "replace_runs P r (c # cs) =
     (if P c then r @ replace_runs P r (dropWhile P cs) else c # replace_runs P r cs)"
  by pat_completeness auto
termination
  by (relation "measure (\<lambda>(P, r, s). length s)")
     (auto simp: less_Suc_eq_le length_dropWhile_le)

definition trim :: "jsstring \<Rightarrow> jsstring" where
  "trim s = rev (dropWhile isWhiteSpace (rev (dropWhile isWhiteSpace s)))"

definition startsWith :: "jsstring \<Rightarrow> jsstring \<Rightarrow> bool" where
  "startsWith s p \<longleftrightarrow> take (length p) s = p"

text \<open>
  \<open>s.split(/\s+/)\<close>: the pieces between the runs of white space; a run at an end of the
  string leaves an empty piece there, and the empty string has the one piece \<open>""\<close>.
  \<open>acc\<close> is the piece being read, reversed.
\<close>

function split_ws_from :: "jsstring \<Rightarrow> jsstring \<Rightarrow> jsstring list" where
  "split_ws_from acc [] = [rev acc]"
| "split_ws_from acc (c # cs) =
     (if isWhiteSpace c then rev acc # split_ws_from [] (dropWhile isWhiteSpace cs)
      else split_ws_from (c # acc) cs)"
  by pat_completeness auto
termination
  by (relation "measure (\<lambda>(acc, s). length s)")
     (auto simp: less_Suc_eq_le length_dropWhile_le)

definition split_ws :: "jsstring \<Rightarrow> jsstring list" where
  "split_ws s = split_ws_from [] s"

fun join :: "jsstring \<Rightarrow> jsstring list \<Rightarrow> jsstring" where
  "join sep [] = []"
| "join sep [w] = w"
| "join sep (w # v # ws) = w @ sep @ join sep (v # ws)"

text \<open>\<open>s.lastIndexOf(c)\<close> for a single code unit: \<open>-1\<close> when there is none.\<close>

fun lastIndexOf :: "jsstring \<Rightarrow> nat \<Rightarrow> int" where
  "lastIndexOf [] c = -1"
| "lastIndexOf (x # xs) c =
     (let i = lastIndexOf xs c in if i \<ge> 0 then i + 1 else if x = c then 0 else -1)"

text \<open>The arrow function given to \<open>map\<close> in \<open>generateName\<close>.\<close>

definition capitalize :: "unicode_tables \<Rightarrow> jsstring \<Rightarrow> jsstring" where
  "capitalize U word =
     (if length word = 0 then word else toUpperCase U (take 1 word) @ drop 1 word)"

text \<open>
  The bound \<open>maxWithoutEllipsis * 0.6\<close> is \<open>28.2\<close>; an index is above it when five
  times the index is above three times \<open>maxWithoutEllipsis\<close>.
\<close>

definition generateName :: "unicode_tables \<Rightarrow> jsstring \<Rightarrow> jsstring" where
  "generateName U text =
     (let titleCased = join (js '' '') (map (capitalize U) (split_ws (toLowerCase U text)))
      in if length titleCased \<le> NAME_MAX_LENGTH then titleCased
         else
           let maxWithoutEllipsis = NAME_MAX_LENGTH - 3;
               truncated = take maxWithoutEllipsis titleCased;
               lastSpace = lastIndexOf truncated 32;
               truncated = (if 5 * lastSpace > 3 * int maxWithoutEllipsis
                            then take (nat lastSpace) truncated else truncated)
           in truncated @ js ''...'')"

text \<open>The classes of the regular expressions of \<open>generateSlug\<close>.\<close>

definition isCombiningMark :: "nat \<Rightarrow> bool" where
  "isCombiningMark c \<longleftrightarrow> 768 \<le> c \<and> c \<le> 879"

definition isSlugChar :: "nat \<Rightarrow> bool" where
  "isSlugChar c \<longleftrightarrow>
     (97 \<le> c \<and> c \<le> 122) \<or> (48 \<le> c \<and> c \<le> 57) \<or> isWhiteSpace c \<or> c = 45"

definition isHyphen :: "nat \<Rightarrow> bool" where
  "isHyphen c \<longleftrightarrow> c = 45"

definition generateSlug :: "unicode_tables \<Rightarrow> jsstring \<Rightarrow> jsstring" where
  "generateSlug U text =
     (let s = normalizeNFD U (toLowerCase U text);
          s = filter (\<lambda>c. \<not> isCombiningMark c) s;
          s = filter (\<lambda>c. c \<le> 127) s;
          s = map (\<lambda>c. if c = 95 then 45 else c) s;
          s = map (\<lambda>c. if isSlugChar c then c else 32) s;
          s = replace_runs isWhiteSpace (js ''-'') s;
          s = replace_runs isHyphen (js ''-'') s;
          slug = rev (dropWhile isHyphen (rev (dropWhile isHyphen s)))
      in if length slug > SLUG_MAX_LENGTH
         then rev (dropWhile isHyphen (rev (take SLUG_MAX_LENGTH slug)))
         else slug)"

text \<open>
  The loop over \<open>COMMON_PREFIXES\<close>: the first prefix that \<open>lowerProcessed\<close> starts with
  is cut off \<open>processed\<close>, and the loop ends there.
\<close>

fun strip_prefix :: "jsstring \<Rightarrow> jsstring \<Rightarrow> jsstring list \<Rightarrow> jsstring" where
  "strip_prefix lowerProcessed processed [] = processed"
| "strip_prefix lowerProcessed processed (pre # rest) =
     (if startsWith lowerProcessed pre then trim (drop (length pre) processed)
      else strip_prefix lowerProcessed processed rest)"

text \<open>
  The value of \<open>processed\<close> after the first statement of \<open>generateHeuristicName\<close>, and
  after its loop.
\<close>

definition normalized :: "jsstring \<Rightarrow> jsstring" where
  "normalized intent = trim (replace_runs isWhiteSpace (js '' '') intent)"

definition stripped :: "unicode_tables \<Rightarrow> jsstring \<Rightarrow> jsstring" where
  "stripped U intent =
     (let processed = normalized intent
      in strip_prefix (toLowerCase U processed) processed COMMON_PREFIXES)"

definition untitled :: HeuristicNameResult where
  "untitled = \<lparr>name = js ''Untitled App'', slug = js ''untitled-app''\<rparr>"

definition generateHeuristicName :: "unicode_tables \<Rightarrow> jsstring \<Rightarrow> HeuristicNameResult" where
  "generateHeuristicName U intent =
     (let processed = stripped U intent
      in if length processed = 0 then untitled
         else
           let name = generateName U processed;
               slug = generateSlug U processed
           in if length slug = 0 then untitled else \<lparr>name = name, slug = slug\<rparr>)"

text \<open>
  The ASCII punctuation, for inputs made of nothing else, and the lower-case letters and
  digits, the only code units that a slug keeps apart from the hyphen.
\<close>

definition isPunctuation :: "nat \<Rightarrow> bool" where
  "isPunctuation c \<longleftrightarrow>
     (33 \<le> c \<and> c \<le> 47) \<or> (58 \<le> c \<and> c \<le> 64) \<or> (91 \<le> c \<and> c \<le> 96)
     \<or> (123 \<le> c \<and> c \<le> 126)"

definition isLowerAlnum :: "nat \<Rightarrow> bool" where
  "isLowerAlnum c \<longleftrightarrow> (97 \<le> c \<and> c \<le> 122) \<or> (48 \<le> c \<and> c \<le> 57)"

section \<open>The AppSpec as the compiler receives it\<close>

text \<open>
  The interfaces of \<open>lib/types/appspec.ts\<close> as records. The literal types of
  TypeScript (\<open>PageType\<close>, \<open>FieldType\<close>, \<open>WorkflowState\<close> and the others) do not exist
  at run time, where a page type is any string: the fields that hold them are strings.
  An optional property is an \<open>option\<close>. A numeric validation value is an integer.
\<close>

record AppMeta =
  meta_name :: jsstring
  meta_slug :: jsstring
  meta_description :: jsstring
  meta_orgId :: jsstring
  meta_orgSlug :: jsstring

record ThemeColors =
  colors_primary :: "jsstring option"
  colors_background :: "jsstring option"
  colors_text :: "jsstring option"

record ThemeConfig =
  theme_preset :: jsstring
  theme_logo :: "jsstring option"
  theme_colors :: "ThemeColors option"

record Role =
  role_id :: jsstring
  role_authRequired :: bool
  role_routePrefix :: "jsstring option"

record FieldOption =
  option_value :: jsstring
  option_label :: jsstring

datatype condition_value = CString jsstring | CBoolean bool

record Condition =
  condition_field :: jsstring
  condition_operator :: jsstring
  condition_value :: "condition_value option"

datatype rule_value = RString jsstring | RNumber int

record ValidationRule =
  rule_type :: jsstring
  rule_value :: rule_value
  rule_message :: jsstring

record Field =
  field_id :: jsstring
  field_type :: jsstring
  field_label :: jsstring
  field_placeholder :: "jsstring option"
  field_required :: "bool option"
  field_options :: "FieldOption list option"
  field_condition :: "Condition option"
  field_validation :: "ValidationRule list option"

record Action =
  action_id :: jsstring
  action_label :: jsstring
  action_targetState :: jsstring
  action_requiresNote :: "bool option"
  action_variant :: jsstring

record Page =
  page_id :: jsstring
  page_route :: jsstring
  page_role :: jsstring
  page_type :: jsstring
  page_title :: jsstring
  page_description :: "jsstring option"
  page_fields :: "Field list option"
  page_actions :: "Action list option"

datatype transition_source = FromState jsstring | FromStates "jsstring list"

record Transition =
  transition_from :: transition_source
  transition_to :: jsstring
  transition_allowedRoles :: "jsstring list"

record WorkflowConfig =
  workflow_states :: "jsstring list"
  workflow_initialState :: jsstring
  workflow_transitions :: "Transition list"

text \<open>
  The object \<open>endpoints\<close> is the list of its entries, key and value, in the order in
  which the keys were inserted: the order that \<open>Object.keys\<close> and
  \<open>Object.entries\<close> give, and that two objects with the same entries need not share.
\<close>

record ApiConfig =
  api_baseUrl :: jsstring
  api_endpoints :: "(jsstring \<times> jsstring) list"

record AnalyticsEvent =
  event_name :: jsstring
  event_trigger :: jsstring
  event_page :: "jsstring option"

record AnalyticsConfig =
  analytics_events :: "AnalyticsEvent list"

record Environment =
  env_domain :: jsstring
  env_apiUrl :: jsstring

record EnvironmentConfig =
  env_staging :: Environment
  env_production :: Environment

record FastformAppSpec =
  spec_id :: jsstring
  spec_version :: jsstring
  spec_meta :: AppMeta
  spec_theme :: ThemeConfig
  spec_roles :: "Role list"
  spec_pages :: "Page list"
  spec_workflow :: WorkflowConfig
  spec_api :: ApiConfig
  spec_analytics :: AnalyticsConfig
  spec_environments :: EnvironmentConfig

section \<open>The prompt compiler\<close>

text \<open>
  \<open>lib/compiler/appspec-to-prompt.ts\<close>, the module of
  \<open>compileAppSpecToPrompt\<close> and \<open>UnsupportedAppSpecFeatureError\<close>, is not among the
  sources; its tests and its README are. The compiler is modelled from sections 4.2 and
  4.4 of the spec: the sections of the prompt in their fixed order, each construct checked against
  the allow-list where it is rendered, the first violation ending the compilation. The
  phrases that the spec and the tests quote are kept to the letter; the rest of the
  wording of a line is not fixed by either and is the model's own.
\<close>

text \<open>
  Modelled from the spec: the error of section 4.4 with its three parts (the compiler
  module is missing).
\<close>

datatype compile_error =
  UnsupportedAppSpecFeatureError
    (message: jsstring) (feature: jsstring) (suggestion: "jsstring option")

text \<open>
  Modelled from the spec: the page types of the allow-list of section 4.2 (the compiler module is missing).
\<close>

definition SUPPORTED_PAGE_TYPES :: "jsstring list" where
  "SUPPORTED_PAGE_TYPES = map js
     [''welcome'', ''form'', ''review'', ''success'', ''login'', ''list'', ''detail'']"

text \<open>
  Modelled from the spec: the field types of the allow-list of section 4.2 (the compiler module is missing).
\<close>

definition SUPPORTED_FIELD_TYPES :: "jsstring list" where
  "SUPPORTED_FIELD_TYPES = map js
     [''text'', ''email'', ''tel'', ''date'', ''textarea'', ''select'', ''radio'',
      ''checkbox'', ''number'']"

text \<open>
  Modelled from the spec: the workflow states of the allow-list of section 4.2 (the compiler module is missing).
\<close>

definition SUPPORTED_STATES :: "jsstring list" where
  "SUPPORTED_STATES = map js
     [''DRAFT'', ''SUBMITTED'', ''NEEDS_INFO'', ''APPROVED'', ''REJECTED'']"

text \<open>
  Modelled from the spec: the decimal text of a count and of an integer, as a template
  literal gives it (the compiler module is missing).
\<close>

function show_nat :: "nat \<Rightarrow> jsstring" where
  "show_nat n = (if n < 10 then [48 + n] else show_nat (n div 10) @ [48 + n mod 10])"
  by pat_completeness auto
termination
  by (relation "measure (\<lambda>n. n)") auto

declare show_nat.simps [simp del]

text \<open>
  Modelled from the spec: the decimal text of an integer (the compiler module is missing).
\<close>

definition show_int :: "int \<Rightarrow> jsstring" where
  "show_int i = (if i < 0 then js ''-'' @ show_nat (nat (- i)) else show_nat (nat i))"

text \<open>
  Modelled from the spec: the sequencing of steps that may throw (the compiler module is
  missing); the first error ends the sequence.
\<close>

fun bindE :: "'e + 'a \<Rightarrow> ('a \<Rightarrow> 'e + 'b) \<Rightarrow> 'e + 'b" where
  "bindE (Inl e) f = Inl e"
| "bindE (Inr x) f = f x"

text \<open>
  Modelled from the spec: the steps for the elements of an array in their order (the
  compiler module is missing); the first error ends them.
\<close>

fun mapE :: "('a \<Rightarrow> 'e + 'b) \<Rightarrow> 'a list \<Rightarrow> 'e + 'b list" where
  "mapE f [] = Inr []"
| "mapE f (x # xs) = bindE (f x) (\<lambda>y. bindE (mapE f xs) (\<lambda>ys. Inr (y # ys)))"

text \<open>
  Modelled from the spec: the end of a line of the prompt (the compiler module is missing).
\<close>

definition nl :: jsstring where
  "nl = [10]"

text \<open>
  Modelled from the spec: the double quote around a quoted value (the compiler module is
  missing).
\<close>

definition dq :: jsstring where
  "dq = [34]"

text \<open>
  Modelled from the spec: a list of texts, separated by commas (the compiler module is
  missing).
\<close>

definition comma_list :: "jsstring list \<Rightarrow> jsstring" where
  "comma_list xs = join (js '', '') xs"

text \<open>
  Modelled from the spec: the error for a page type outside the allow-list (the compiler module
  is missing): the message names the type and says \<open>not supported\<close>, the suggestion lists
  the valid set.
\<close>

definition unsupported_page_type :: "jsstring \<Rightarrow> compile_error" where
  "unsupported_page_type t = UnsupportedAppSpecFeatureError
     (js ''Page type '' @ dq @ t @ dq @ js '' is '' @ js ''not supported'' @ js '' in v1. Supported types: ''
        @ comma_list SUPPORTED_PAGE_TYPES)
     (js ''page.type.'' @ t)
     (Some (js ''Use one of: '' @ comma_list SUPPORTED_PAGE_TYPES))"

text \<open>
  Modelled from the spec: the error for a field type outside the allow-list (the compiler module
  is missing), of the same shape; \<open>field.type.file\<close> is the feature the spec quotes.
\<close>

definition unsupported_field_type :: "jsstring \<Rightarrow> compile_error" where
  "unsupported_field_type t = UnsupportedAppSpecFeatureError
     (js ''Field type '' @ dq @ t @ dq @ js '' is '' @ js ''not supported'' @ js '' in v1. Supported types: ''
        @ comma_list SUPPORTED_FIELD_TYPES)
     (js ''field.type.'' @ t)
     (Some (js ''Use one of: '' @ comma_list SUPPORTED_FIELD_TYPES))"

text \<open>
  Modelled from the spec: the error for a workflow state outside the closed set (the compiler
  module is missing), with the suggestion \<open>Use simple workflow with states: ...\<close>.
\<close>

definition unsupported_state :: "jsstring \<Rightarrow> compile_error" where
  "unsupported_state s = UnsupportedAppSpecFeatureError
     (js ''Workflow state '' @ dq @ s @ dq @ js '' is '' @ js ''not supported'' @ js '' in v1.'')
     (js ''workflow.state.'' @ s)
     (Some (js ''Use simple workflow with states: '' @ comma_list SUPPORTED_STATES))"

text \<open>
  Modelled from the spec: the error for more transitions than three times the states (the compiler
  module is missing): the feature \<open>workflow.complexity\<close>, a message with both counts,
  a suggestion to simplify the workflow.
\<close>

definition workflow_too_complex :: "nat \<Rightarrow> nat \<Rightarrow> compile_error" where
  "workflow_too_complex transitions states = UnsupportedAppSpecFeatureError
     (js ''Workflow is too complex for v1: '' @ show_nat transitions @ js '' transitions''
        @ js '' for '' @ show_nat states @ js '' states'')
     (js ''workflow.complexity'')
     (Some (js ''Simplify workflow'' @ js '' to at most three transitions per state''))"

text \<open>
  Modelled from the spec: the value of a validation rule as text (the compiler module is missing).
\<close>

definition render_rule_value :: "rule_value \<Rightarrow> jsstring" where
  "render_rule_value v = (case v of RString s \<Rightarrow> s | RNumber i \<Rightarrow> show_int i)"

text \<open>
  Modelled from the spec: a validation rule (the compiler module is missing). The five known types
  have their own wording; any other type is rendered as its type, a colon, a space and
  its value, and is no error.
\<close>

definition render_rule :: "ValidationRule \<Rightarrow> jsstring" where
  "render_rule r =
     (let t = rule_type r; v = render_rule_value (rule_value r)
      in if t = js ''minLength'' then js ''minimum '' @ v @ js '' characters''
         else if t = js ''maxLength'' then js ''maximum '' @ v @ js '' characters''
         else if t = js ''pattern'' then js ''pattern: '' @ v
         else if t = js ''min'' then js ''minimum value '' @ v
         else if t = js ''max'' then js ''maximum value '' @ v
         else t @ js '': '' @ v)"

text \<open>
  Modelled from the spec: the visibility condition of a field (the compiler module is missing):
  \<open>shown when field "X" <operator> <value>\<close>, with \<open>(exists)\<close> for a value that is
  absent, as the tests have it.
\<close>

definition render_condition :: "Condition \<Rightarrow> jsstring" where
  "render_condition c =
     js ''shown when field '' @ dq @ condition_field c @ dq @ js '' '' @ condition_operator c
       @ js '' ''
       @ (case condition_value c of
            None \<Rightarrow> js ''(exists)''
          | Some (CString s) \<Rightarrow> s
          | Some (CBoolean b) \<Rightarrow> (if b then js ''true'' else js ''false''))"

text \<open>
  Modelled from the spec: an option of a select or radio field (the compiler module is missing).
\<close>

definition render_option :: "FieldOption \<Rightarrow> jsstring" where
  "render_option opt = option_label opt @ js '' ('' @ option_value opt @ js '')''"

text \<open>
  Modelled from the spec: an optional array, absent or empty alike (the compiler module is
  missing).
\<close>

definition list_of :: "'a list option \<Rightarrow> 'a list" where
  "list_of xs = (case xs of None \<Rightarrow> [] | Some ys \<Rightarrow> ys)"

text \<open>
  Modelled from the spec: a field (the compiler module is missing). Its type is checked where it
  is rendered; its options, rules and condition follow in the order of their declaration.
\<close>

definition render_field :: "Field \<Rightarrow> compile_error + jsstring" where
  "render_field f =
     (if field_type f \<notin> set SUPPORTED_FIELD_TYPES
      then Inl (unsupported_field_type (field_type f))
      else Inr
        (js ''  - '' @ field_id f @ js '' ('' @ field_type f @ js ''): '' @ field_label f
         @ (if field_required f = Some True then js '' [required]'' else [])
         @ (case field_placeholder f of None \<Rightarrow> []
            | Some p \<Rightarrow> js '' placeholder: '' @ p)
         @ (case field_options f of None \<Rightarrow> []
            | Some opts \<Rightarrow> js '' options: '' @ comma_list (map render_option opts))
         @ (case field_validation f of None \<Rightarrow> []
            | Some rules \<Rightarrow> js '' validation: '' @ comma_list (map render_rule rules))
         @ (case field_condition f of None \<Rightarrow> []
            | Some c \<Rightarrow> js '' ('' @ render_condition c @ js '')'')
         @ nl))"

text \<open>
  Modelled from the spec: an action of a page (the compiler module is missing).
\<close>

definition render_action :: "Action \<Rightarrow> jsstring" where
  "render_action a =
     js ''  * '' @ action_label a @ js '' ('' @ action_id a @ js '', '' @ action_variant a
       @ js '') moves the submission to '' @ action_targetState a
       @ (if action_requiresNote a = Some True then js '' and requires a note'' else [])
       @ nl"

text \<open>
  Modelled from the spec: a page (the compiler module is missing). Its type is checked first, then
  its fields are rendered in the order of their declaration, each checked where it is
  rendered.
\<close>

definition render_page :: "Page \<Rightarrow> compile_error + jsstring" where
  "render_page p =
     (if page_type p \<notin> set SUPPORTED_PAGE_TYPES
      then Inl (unsupported_page_type (page_type p))
      else bindE (mapE render_field (list_of (page_fields p))) (\<lambda>fields. Inr
        (js ''Page '' @ page_id p @ js '' ('' @ page_type p @ js '') at '' @ page_route p
         @ js '' for '' @ page_role p @ js '': '' @ page_title p
         @ (case page_description p of None \<Rightarrow> [] | Some d \<Rightarrow> js '' - '' @ d)
         @ nl
         @ concat fields
         @ concat (map render_action (list_of (page_actions p))))))"

text \<open>
  Modelled from the spec: the section of the pages, in the order of the array (the compiler module
  is missing); the first page that fails ends it.
\<close>

definition render_pages :: "Page list \<Rightarrow> compile_error + jsstring" where
  "render_pages ps =
     bindE (mapE render_page ps) (\<lambda>pages. Inr (js ''PAGES'' @ nl @ concat pages))"

text \<open>
  Modelled from the spec: the check of one workflow state against the closed set (the compiler
  module is missing).
\<close>

definition check_state :: "jsstring \<Rightarrow> compile_error + jsstring" where
  "check_state s =
     (if s \<notin> set SUPPORTED_STATES then Inl (unsupported_state s) else Inr s)"

text \<open>
  Modelled from the spec: the source of a transition, one state or several (the compiler module is
  missing); several are all listed.
\<close>

definition render_source :: "transition_source \<Rightarrow> jsstring" where
  "render_source src = (case src of FromState s \<Rightarrow> s | FromStates ss \<Rightarrow> comma_list ss)"

text \<open>
  Modelled from the spec: a transition (the compiler module is missing).
\<close>

definition render_transition :: "Transition \<Rightarrow> jsstring" where
  "render_transition t =
     js ''  - transition from '' @ render_source (transition_from t) @ js '' to ''
       @ transition_to t @ js '' allowed for '' @ comma_list (transition_allowedRoles t) @ nl"

text \<open>
  Modelled from the spec: the section of the workflow (the compiler module is missing). Its states
  are checked in their order, then the number of transitions against three times the
  number of states.
\<close>

definition render_workflow :: "WorkflowConfig \<Rightarrow> compile_error + jsstring" where
  "render_workflow w =
     bindE (mapE check_state (workflow_states w)) (\<lambda>states.
       if length (workflow_transitions w) > 3 * length (workflow_states w)
       then Inl (workflow_too_complex (length (workflow_transitions w))
                   (length (workflow_states w)))
       else Inr
         (js ''WORKFLOW'' @ nl
          @ js ''States: '' @ comma_list states @ nl
          @ js ''Initial state: '' @ workflow_initialState w @ nl
          @ concat (map render_transition (workflow_transitions w))))"

text \<open>
  Modelled from the spec: the header of the prompt (the compiler module is missing): name, slug,
  description and organisation.
\<close>

definition render_header :: "FastformAppSpec \<Rightarrow> jsstring" where
  "render_header S =
     js ''Build the application '' @ meta_name (spec_meta S) @ js '' ('' @ meta_slug (spec_meta S)
       @ js '', id '' @ spec_id S @ js '')'' @ nl
       @ meta_description (spec_meta S) @ nl
       @ js ''Organization: '' @ meta_orgSlug (spec_meta S) @ js '' ('' @ meta_orgId (spec_meta S)
       @ js '')'' @ nl"

text \<open>
  Modelled from the spec: a role (the compiler module is missing).
\<close>

definition render_role :: "Role \<Rightarrow> jsstring" where
  "render_role r =
     js ''  - '' @ role_id r
       @ (if role_authRequired r then js '' (authentication required)''
          else js '' (no authentication)'')
       @ (case role_routePrefix r of None \<Rightarrow> [] | Some p \<Rightarrow> js '' under '' @ p)
       @ nl"

text \<open>
  Modelled from the spec: a colour of the theme (the compiler module is missing).
\<close>

definition render_color :: "jsstring \<Rightarrow> jsstring option \<Rightarrow> jsstring" where
  "render_color k c = (case c of None \<Rightarrow> [] | Some h \<Rightarrow> js ''  - '' @ k @ js '': '' @ h @ nl)"

text \<open>
  Modelled from the spec: the section of the theme (the compiler module is missing).
\<close>

definition render_theme :: "ThemeConfig \<Rightarrow> jsstring" where
  "render_theme t =
     js ''THEME'' @ nl @ js ''Preset: '' @ theme_preset t @ nl
       @ (case theme_logo t of None \<Rightarrow> [] | Some l \<Rightarrow> js ''Logo: '' @ l @ nl)
       @ (case theme_colors t of None \<Rightarrow> []
          | Some c \<Rightarrow> render_color (js ''primary'') (colors_primary c)
              @ render_color (js ''background'') (colors_background c)
              @ render_color (js ''text'') (colors_text c))"

text \<open>
  Modelled from the spec: the catalogue of the endpoints (the compiler module is missing), sorted
  by their names, code unit by code unit as \<open>sort\<close> compares strings, and not left in
  the order of the object's keys.
\<close>

definition render_api :: "ApiConfig \<Rightarrow> jsstring" where
  "render_api a =
     js ''API'' @ nl @ js ''Base URL: '' @ api_baseUrl a @ nl
       @ concat (map (\<lambda>(k, v). js ''  - '' @ k @ js '': '' @ v @ nl)
           (sort_key fst (api_endpoints a)))"

text \<open>
  Modelled from the spec: an analytics event (the compiler module is missing).
\<close>

definition render_event :: "AnalyticsEvent \<Rightarrow> jsstring" where
  "render_event e =
     js ''  - '' @ event_name e @ js '' on '' @ event_trigger e
       @ (case event_page e of None \<Rightarrow> [] | Some p \<Rightarrow> js '' of '' @ p) @ nl"

text \<open>
  Modelled from the spec: the section of the environments (the compiler module is missing).
\<close>

definition render_environments :: "EnvironmentConfig \<Rightarrow> jsstring" where
  "render_environments e =
     js ''ENVIRONMENTS'' @ nl
       @ js ''Staging: '' @ env_domain (env_staging e) @ js '' with API ''
       @ env_apiUrl (env_staging e) @ nl
       @ js ''Production: '' @ env_domain (env_production e) @ js '' with API ''
       @ env_apiUrl (env_production e) @ nl"

text \<open>
  Modelled from the spec: the closing section of fixed rules for the generator (the compiler module
  is missing); it does not depend on the spec.
\<close>

definition CONSTRAINTS :: jsstring where
  "CONSTRAINTS =
     js ''CONSTRAINTS'' @ nl
     @ js ''- Use no external UI or form library.'' @ nl
     @ js ''- Name database columns in camelCase.'' @ nl
     @ js ''- Mutate data on the server only.'' @ nl
     @ js ''- Scope every record by appId.'' @ nl
     @ js ''- Keep every page accessible and responsive.'' @ nl"

text \<open>
  Modelled from the spec: the compiler (the module is missing). The header, the roles and the
  theme are plain text; the pages come next and may throw; then the workflow, which may
  throw; then the sections that follow it.
\<close>

definition compileAppSpecToPrompt :: "FastformAppSpec \<Rightarrow> compile_error + jsstring" where
  "compileAppSpecToPrompt S =
     bindE (render_pages (spec_pages S)) (\<lambda>pages.
     bindE (render_workflow (spec_workflow S)) (\<lambda>workflow. Inr
       (render_header S
        @ js ''ROLES'' @ nl @ concat (map render_role (spec_roles S))
        @ render_theme (spec_theme S)
        @ pages
        @ workflow
        @ render_api (spec_api S)
        @ js ''ANALYTICS'' @ nl @ concat (map render_event (analytics_events (spec_analytics S)))
        @ render_environments (spec_environments S)
        @ CONSTRAINTS)))"





text \<open>The document \<open>createMinimalAppSpec()\<close> of the compiler's tests.\<close>

definition minimal_spec :: FastformAppSpec where
  "minimal_spec =
     \<lparr>spec_id = js ''test-app-id'',
      spec_version = js ''0.3'',
      spec_meta =
        \<lparr>meta_name = js ''Test App'', meta_slug = js ''test-app'',
         meta_description = js ''A minimal test application'',
         meta_orgId = js ''test-org-id'', meta_orgSlug = js ''test-org''\<rparr>,
      spec_theme =
        \<lparr>theme_preset = js ''healthcare-calm'', theme_logo = None, theme_colors = None\<rparr>,
      spec_roles =
        [\<lparr>role_id = js ''PATIENT'', role_authRequired = False, role_routePrefix = None\<rparr>,
         \<lparr>role_id = js ''STAFF'', role_authRequired = True,
          role_routePrefix = Some (js ''/staff'')\<rparr>],
      spec_pages =
        [\<lparr>page_id = js ''welcome'', page_route = js ''/'', page_role = js ''PATIENT'',
          page_type = js ''welcome'', page_title = js ''Welcome'', page_description = None,
          page_fields = None, page_actions = None\<rparr>],
      spec_workflow =
        \<lparr>workflow_states = [js ''DRAFT'', js ''SUBMITTED''],
         workflow_initialState = js ''DRAFT'',
         workflow_transitions =
           [\<lparr>transition_from = FromState (js ''DRAFT''), transition_to = js ''SUBMITTED'',
             transition_allowedRoles = [js ''PATIENT'']\<rparr>]\<rparr>,
      spec_api =
        \<lparr>api_baseUrl = js ''{{FASTFORM_API_URL}}'',
         api_endpoints =
           [(js ''createSubmission'', js ''POST /api/apps/:appId/submissions''),
            (js ''getSubmission'', js ''GET /api/apps/:appId/submissions/:id''),
            (js ''resubmitSubmission'',
               js ''POST /api/apps/:appId/submissions/:id/resubmit''),
            (js ''staffLogin'', js ''POST /api/apps/:appId/staff/login''),
            (js ''staffLogout'', js ''POST /api/apps/:appId/staff/logout''),
            (js ''staffSession'', js ''GET /api/apps/:appId/staff/session''),
            (js ''listSubmissions'', js ''GET /api/apps/:appId/staff/inbox''),
            (js ''getSubmissionDetail'', js ''GET /api/apps/:appId/staff/submissions/:id''),
            (js ''transitionSubmission'',
               js ''POST /api/apps/:appId/staff/submissions/:id/transition''),
            (js ''trackEvent'', js ''POST /api/apps/:appId/events'')]\<rparr>,
      spec_analytics =
        \<lparr>analytics_events =
           [\<lparr>event_name = js ''page_view'', event_trigger = js ''pageview'',
             event_page = Some (js ''/'')\<rparr>]\<rparr>,
      spec_environments =
        \<lparr>env_staging =
           \<lparr>env_domain = js ''test-app-staging.getfastform.com'',
            env_apiUrl = js ''https://api-staging.getfastform.com''\<rparr>,
         env_production =
           \<lparr>env_domain = js ''test-app.getfastform.com'',
            env_apiUrl = js ''https://api.getfastform.com''\<rparr>\<rparr>\<rparr>"

text \<open>A field of a given type with nothing optional, and the variations of the tests.\<close>

definition plain_field :: "jsstring \<Rightarrow> Field" where
  "plain_field t =
     \<lparr>field_id = js ''testField'', field_type = t, field_label = js ''Test Field'',
      field_placeholder = None, field_required = Some False, field_options = None,
      field_condition = None, field_validation = None\<rparr>"

definition with_page_type :: "jsstring \<Rightarrow> FastformAppSpec \<Rightarrow> FastformAppSpec" where
  "with_page_type t S = S\<lparr>spec_pages := map (\<lambda>p. p\<lparr>page_type := t\<rparr>) (spec_pages S)\<rparr>"

definition with_fields :: "Field list \<Rightarrow> FastformAppSpec \<Rightarrow> FastformAppSpec" where
  "with_fields fs S =
     S\<lparr>spec_pages := map (\<lambda>p. p\<lparr>page_fields := Some fs\<rparr>) (spec_pages S)\<rparr>"


definition with_states :: "jsstring list \<Rightarrow> FastformAppSpec \<Rightarrow> FastformAppSpec" where
  "with_states ss S = S\<lparr>spec_workflow := (spec_workflow S)\<lparr>workflow_states := ss\<rparr>\<rparr>"

definition with_transitions :: "Transition list \<Rightarrow> FastformAppSpec \<Rightarrow> FastformAppSpec" where
  "with_transitions ts S =
     S\<lparr>spec_workflow := (spec_workflow S)\<lparr>workflow_transitions := ts\<rparr>\<rparr>"

text \<open>
  What a spec holds outside the allow-lists: page types, field types and workflow states,
  and when it holds none.
\<close>

definition offending :: "FastformAppSpec \<Rightarrow> jsstring set" where
  "offending S =
     {t. \<exists>p\<in>set (spec_pages S). page_type p = t \<and> t \<notin> set SUPPORTED_PAGE_TYPES}
     \<union> {t. \<exists>p\<in>set (spec_pages S). \<exists>f\<in>set (list_of (page_fields p)).
            field_type f = t \<and> t \<notin> set SUPPORTED_FIELD_TYPES}
     \<union> {s. s \<in> set (workflow_states (spec_workflow S)) \<and> s \<notin> set SUPPORTED_STATES}"

definition within_allow_lists :: "FastformAppSpec \<Rightarrow> bool" where
  "within_allow_lists S \<longleftrightarrow>
     list_all (\<lambda>p. page_type p \<in> set SUPPORTED_PAGE_TYPES
        \<and> list_all (\<lambda>f. field_type f \<in> set SUPPORTED_FIELD_TYPES) (list_of (page_fields p)))
       (spec_pages S)
     \<and> list_all (\<lambda>s. s \<in> set SUPPORTED_STATES) (workflow_states (spec_workflow S))"

text \<open>
  Modelled from the spec: the validation rule types that have a wording of their own (the compiler
  module is missing).
\<close>

definition knownRuleTypes :: "jsstring list" where
  "knownRuleTypes = map js [''minLength'', ''maxLength'', ''pattern'', ''min'', ''max'']"

text \<open>The pages that are within the allow-lists, as a predicate on the list of pages.\<close>

definition pages_ok :: "Page list \<Rightarrow> bool" where
  "pages_ok ps \<longleftrightarrow> (\<forall>p\<in>set ps. page_type p \<in> set SUPPORTED_PAGE_TYPES
     \<and> (\<forall>f\<in>set (list_of (page_fields p)). field_type f \<in> set SUPPORTED_FIELD_TYPES))"


text \<open>
  The unknown validation rule of the compiler's tests, a field that carries it, and the
  specs of the examples: the form page with such a text field, the same with a field of
  the unsupported type \<open>file\<close>, the minimal spec with \<open>n\<close> transitions, and the same
  with the unsupported page type \<open>dashboard\<close>.
\<close>

definition custom_rule :: ValidationRule where
  "custom_rule =
     \<lparr>rule_type = js ''customRule'', rule_value = RString (js ''x''),
      rule_message = js ''Custom validation failed''\<rparr>"

definition custom_rule_field :: "jsstring \<Rightarrow> Field" where
  "custom_rule_field t = (plain_field t)\<lparr>field_validation := Some [custom_rule]\<rparr>"

definition custom_rule_spec :: FastformAppSpec where
  "custom_rule_spec =
     with_fields [custom_rule_field (js ''text'')] (with_page_type (js ''form'') minimal_spec)"

definition file_field_custom_rule_spec :: FastformAppSpec where
  "file_field_custom_rule_spec =
     with_fields [custom_rule_field (js ''file'')] (with_page_type (js ''form'') minimal_spec)"

definition dashboard_spec :: "nat \<Rightarrow> FastformAppSpec" where
  "dashboard_spec n =
     with_transitions
       (replicate n \<lparr>transition_from = FromState (js ''DRAFT''), transition_to = js ''SUBMITTED'',
                      transition_allowedRoles = [js ''PATIENT'']\<rparr>)
       (with_page_type (js ''dashboard'') minimal_spec)"



section \<open>Properties of the validator\<close>

subsection \<open>The validator returns\<close>

lemma returns_Some [simp]: "returns (Some x)"
  and returns_None [simp]: "\<not> returns None"
  by (simp_all add: returns_def)

lemma returns_get: "truthy v \<Longrightarrow> returns (get v k)"
  by (cases v) auto

lemma returns_tst1: "truthy v \<Longrightarrow> returns (tst P v [k])"
  by (cases v) (auto simp: tst_def)

lemma returns_tst2: "tst truthy v [k] = Some True \<Longrightarrow> returns (tst P v [k, k'])"
  by (cases v; cases "get v k")
     (auto simp: tst_def returns_def dest!: returns_get[of _ k'])

lemma returns_tst2_not:
  "tst (\<lambda>v. \<not> truthy v) v [k] = Some False \<Longrightarrow> returns (tst P v [k, k'])"
  by (rule returns_tst2) (auto simp: tst_def)

lemma returns_reject_if:
  assumes "returns c" and "c = Some False \<Longrightarrow> returns rest"
  shows "returns (reject_if c rest)"
proof -
  from assms(1) obtain b where b: "c = Some b" by (cases c) auto
  show ?thesis using assms(2) b by (cases b) auto
qed

lemma returns_all_of:
  "returns c \<Longrightarrow> (c = Some True \<Longrightarrow> returns (all_of cs)) \<Longrightarrow> returns (all_of (c # cs))"
  by (cases c) (auto split: bool.splits)

lemma returns_any_of:
  "returns c \<Longrightarrow> (c = Some False \<Longrightarrow> returns (any_of cs)) \<Longrightarrow> returns (any_of (c # cs))"
  by (cases c) (auto split: bool.splits)

lemma returns_any_of_Nil [simp]: "returns (any_of [])"
  and returns_all_of_Nil [simp]: "returns (all_of [])"
  by simp_all

lemma returns_every: "(\<And>x. returns (f x)) \<Longrightarrow> returns (every f xs)"
proof (induction xs)
  case (Cons x xs)
  have "returns (f x)" by (rule Cons.prems)
  then obtain b where b: "f x = Some b" by (cases "f x") auto
  have "returns (every f xs)" using Cons by blast
  then show ?case using b by (cases b) auto
qed simp

lemma returns_map_option: "returns c \<Longrightarrow> returns (map_option f c)"
  by (cases c) auto

lemma any_of_False: "any_of cs = Some False \<longleftrightarrow> (\<forall>c\<in>set cs. c = Some False)"
  by (induction cs) (auto split: option.splits bool.splits)

lemma all_of_True: "all_of cs = Some True \<longleftrightarrow> (\<forall>c\<in>set cs. c = Some True)"
  by (induction cs) (auto split: option.splits bool.splits)

lemma role_ok_total: "returns (role_ok role)"
  unfolding role_ok_def
  by (intro returns_all_of returns_any_of returns_tst1) simp_all

lemma validateRoles_total: "returns (validateRoles v)"
  unfolding validateRoles_def
  by (cases v) (simp_all add: returns_every role_ok_total)

lemma page_ok_total: "returns (page_ok page)"
  unfolding page_ok_def
  by (intro returns_all_of returns_any_of returns_tst1) simp_all

lemma validatePages_total: "returns (validatePages v)"
  unfolding validatePages_def
  by (cases v) (simp_all add: returns_every page_ok_total)

lemma returns_from:
  "tst isArray t [''from''] = Some True \<Longrightarrow>
   returns (Option.bind (get t ''from'') (call_every (\<lambda>s. Some (typeof s = ''string''))))"
  by (cases "get t ''from''"; cases "the (get t ''from'')")
     (auto simp: tst_def intro: returns_every)

lemma transition_ok_total: "returns (transition_ok t)"
  unfolding transition_ok_def
  by (intro returns_all_of returns_any_of returns_tst1 returns_from) simp_all

lemma event_ok_total: "returns (event_ok e)"
  unfolding event_ok_def
  by (intro returns_all_of returns_any_of returns_tst1) simp_all

lemma returns_bind_every:
  "tst (\<lambda>v. \<not> isArray v) w [k] = Some False \<Longrightarrow> (\<And>x. returns (f x)) \<Longrightarrow>
   returns (Option.bind (get w k) (call_every f))"
  by (cases "get w k"; cases "the (get w k)") (auto simp: tst_def intro: returns_every)

lemma validateWorkflow_total: "returns (validateWorkflow v)"
  unfolding validateWorkflow_def
  by (intro returns_reject_if returns_any_of returns_tst1 returns_map_option
        returns_bind_every transition_ok_total)
     (simp_all add: any_of_False del: any_of.simps)

lemma returns_all_of_map: "(\<And>x. returns (f x)) \<Longrightarrow> returns (all_of (map f xs))"
proof (induction xs)
  case (Cons x xs)
  have "returns (all_of (f x # map f xs))"
    by (rule returns_all_of) (use Cons in blast)+
  then show ?case by simp
qed simp

lemma returns_all_of_append:
  "returns (all_of xs) \<Longrightarrow> (all_of xs = Some True \<Longrightarrow> returns (all_of ys))
   \<Longrightarrow> returns (all_of (xs @ ys))"
  by (induction xs) (auto split: option.splits bool.splits)

lemma validateApi_total: "returns (validateApi v)"
  unfolding validateApi_def
  by (intro returns_reject_if returns_all_of_append returns_all_of returns_tst1
        returns_all_of_map returns_tst2)
     (simp_all add: all_of_True del: all_of.simps)

lemma validateAnalytics_total: "returns (validateAnalytics v)"
  unfolding validateAnalytics_def
  by (intro returns_reject_if returns_tst1 returns_bind_every event_ok_total) simp_all

lemma validateEnvironments_total: "returns (validateEnvironments v)"
  unfolding validateEnvironments_def
  by (intro returns_reject_if returns_all_of) (simp_all add: returns_tst1 returns_tst2)

lemma returns_bind_get:
  "truthy v \<Longrightarrow> (\<And>w. returns (f w)) \<Longrightarrow> returns (Option.bind (get v k) f)"
  by (cases v) auto

lemma isValidAppSpec_returns: "returns (isValidAppSpec v)"
  unfolding isValidAppSpec_def
  by (intro returns_reject_if returns_any_of returns_map_option returns_bind_get
        validateRoles_total validatePages_total validateWorkflow_total validateApi_total
        validateAnalytics_total validateEnvironments_total)
     (simp_all add: returns_tst1 returns_tst2_not any_of_False del: any_of.simps)

subsection \<open>Documents it rejects\<close>

lemma isValidAppSpec_non_object: "typeof v \<noteq> ''object'' \<Longrightarrow> isValidAppSpec v = Some False"
  by (simp add: isValidAppSpec_def)

lemma isValidAppSpec_id:
  "get v ''id'' = Some w \<Longrightarrow> typeof w \<noteq> ''string'' \<Longrightarrow> isValidAppSpec v = Some False"
  by (cases "truthy v \<and> typeof v = ''object''") (auto simp: isValidAppSpec_def tst_def)

lemma isValidAppSpec_array: "isValidAppSpec (JArr xs) = Some False"
  by (rule isValidAppSpec_id[where w = JUndefined]) simp_all

lemma isValidAppSpec_empty_object: "isValidAppSpec (JObj []) = Some False"
  by (rule isValidAppSpec_id[where w = JUndefined]) simp_all

lemma isValidAppSpec_version:
  assumes "get v ''version'' \<noteq> Some (JStr ''0.3'')"
  shows "isValidAppSpec v = Some False"
proof (cases "truthy v \<and> typeof v = ''object''")
  case False
  then show ?thesis by (auto simp: isValidAppSpec_def)
next
  case True
  then obtain i w where g: "get v ''id'' = Some i" "get v ''version'' = Some w"
    by (cases v) auto
  with assms have "w \<noteq> JStr ''0.3''" by simp
  then show ?thesis using True g
    by (cases "typeof i = ''string''") (simp_all add: isValidAppSpec_def tst_def)
qed

text \<open>
  C5: \<open>isValidAppSpec\<close> never throws, whatever its argument, and returns \<open>false\<close> for
  \<open>null\<close> and \<open>undefined\<close>, for every value that is not an object, for every array,
  for the empty object, and for every document whose \<open>version\<close> is not the string
  \<open>"0.3"\<close>; the number \<open>0.3\<close> as version is rejected.
\<close>

theorem isValidAppSpec_never_throws:
  "isValidAppSpec v \<noteq> None
   \<and> isValidAppSpec JNull = Some False
   \<and> isValidAppSpec JUndefined = Some False
   \<and> (typeof v \<noteq> ''object'' \<longrightarrow> isValidAppSpec v = Some False)
   \<and> isValidAppSpec (JArr xs) = Some False
   \<and> isValidAppSpec (JObj []) = Some False
   \<and> (get v ''version'' \<noteq> Some (JStr ''0.3'') \<longrightarrow> isValidAppSpec v = Some False)
   \<and> isValidAppSpec (set_prop ''version'' (JNum (3 / 10)) valid_spec) = Some False"
proof -
  have "isValidAppSpec v \<noteq> None"
    using isValidAppSpec_returns[of v] by (simp add: returns_def)
  moreover have "isValidAppSpec JNull = Some False" "isValidAppSpec JUndefined = Some False"
    by (simp_all add: isValidAppSpec_def)
  moreover have "isValidAppSpec (set_prop ''version'' (JNum (3 / 10)) valid_spec) = Some False"
    by (rule isValidAppSpec_version) (simp add: valid_spec_def)
  ultimately show ?thesis
    using isValidAppSpec_non_object isValidAppSpec_array isValidAppSpec_empty_object
      isValidAppSpec_version by blast
qed

theorem isValidAppSpec_never_throws_witness:
  "typeof (JStr ''string'') \<noteq> ''object''
   \<and> isValidAppSpec (JStr ''string'') = Some False
   \<and> get (JObj [(''id'', JStr ''a''), (''version'', JStr ''0.2'')]) ''version''
       \<noteq> Some (JStr ''0.3'')
   \<and> isValidAppSpec (JObj [(''id'', JStr ''a''), (''version'', JStr ''0.2'')]) = Some False"
proof -
  have a: "typeof (JStr ''string'') \<noteq> ''object''" by simp
  have b: "get (JObj [(''id'', JStr ''a''), (''version'', JStr ''0.2'')]) ''version''
       \<noteq> Some (JStr ''0.3'')" by simp
  from a isValidAppSpec_never_throws[of "JStr ''string''"]
  have "isValidAppSpec (JStr ''string'') = Some False" by blast
  moreover from b isValidAppSpec_never_throws[of "JObj [(''id'', JStr ''a''), (''version'', JStr ''0.2'')]"]
  have "isValidAppSpec (JObj [(''id'', JStr ''a''), (''version'', JStr ''0.2'')]) = Some False"
    by blast
  ultimately show ?thesis using a b by blast
qed

subsection \<open>What the validator reads\<close>

lemmas validator_defs = isValidAppSpec_def validateRoles_def role_ok_def validatePages_def
  page_ok_def validPageTypes_def validateWorkflow_def transition_ok_def validStates_def
  validateApi_def endpointNames_def validateAnalytics_def event_ok_def validTriggers_def
  validateEnvironments_def tst_def

lemma valid_spec_ok: "isValidAppSpec valid_spec = Some True"
  by (simp add: valid_spec_def validator_defs)

lemma every_all_of: "every f xs = all_of (map f xs)"
  by (induction xs) (auto split: option.splits bool.splits)

lemma shape_set_prop [simp]:
  "truthy (set_prop k x v) = truthy v" "typeof (set_prop k x v) = typeof v"
  "isArray (set_prop k x v) = isArray v"
  by (cases v; simp)+

lemma shape_upd_in [simp]:
  "truthy (upd_in k f v) = truthy v" "typeof (upd_in k f v) = typeof v"
  "isArray (upd_in k f v) = isArray v"
  by (cases v; simp)+

lemma shape_upd_at [simp]:
  "truthy (upd_at k f v) = truthy v" "typeof (upd_at k f v) = typeof v"
  "isArray (upd_at k f v) = isArray v"
  by (cases v; simp)+

lemma get_set_prop: "k' \<noteq> k \<Longrightarrow> get (set_prop k x v) k' = get v k'"
  by (cases v) (simp_all add: update_conv')

lemma map_of_upd:
  "map_of (map (\<lambda>(k', w). (k', if k' = k then f w else w)) kvs) k' =
   map_option (\<lambda>w. if k' = k then f w else w) (map_of kvs k')"
  by (induction kvs) auto

lemma get_upd_in_other: "k' \<noteq> k \<Longrightarrow> get (upd_in k f v) k' = get v k'"
  by (cases v) (simp_all add: map_of_upd option.map_ident split: option.splits)

lemma get_upd_at: "get (upd_at i f v) k = get v k"
  by (cases v) simp_all

text \<open>The callbacks do not read the keys in question.\<close>

lemma role_ok_set: "role_ok (set_prop ''routePrefix'' x r) = role_ok r"
  by (simp add: role_ok_def tst_def get_set_prop)

lemma event_ok_set: "event_ok (set_prop ''page'' x r) = event_ok r"
  by (simp add: event_ok_def tst_def get_set_prop)


lemma map_upd_same:
  "map f (xs[i := g (xs ! i)]) = map f xs" if "\<And>r. f (g r) = f r"
proof (cases "i < length xs")
  case True
  then show ?thesis using that by (simp add: map_update list_update_same_conv)
next
  case False
  then show ?thesis by (simp add: list_update_beyond)
qed

lemma call_every_upd_at:
  "(\<And>r. f (g r) = f r) \<Longrightarrow> call_every f (upd_at i g v) = call_every f v"
  by (cases v) (simp_all add: every_all_of map_upd_same)

lemma validateRoles_upd:
  "validateRoles (upd_at i (set_prop ''routePrefix'' x) v) = validateRoles v"
  unfolding validateRoles_def by (simp add: call_every_upd_at role_ok_set)


lemma validateAnalytics_upd:
  "validateAnalytics (upd_in ''events'' (upd_at i (set_prop ''page'' x)) v)
   = validateAnalytics v"
proof (cases v)
  case (JObj kvs)
  show ?thesis unfolding validateAnalytics_def JObj
    by (cases "map_of kvs ''events''")
       (simp_all add: tst_def map_of_upd call_every_upd_at event_ok_set)
qed simp_all

text \<open>All that the validator reads of a document.\<close>

lemma isValidAppSpec_cong:
  assumes "truthy d' = truthy d" "typeof d' = typeof d"
    and "\<And>k. k \<in> {''id'', ''version''} \<Longrightarrow> get d' k = get d k"
    and "\<And>k P. k \<in> {''meta'', ''theme'', ''workflow'', ''api'', ''analytics'',
                      ''environments'', ''roles'', ''pages''}
           \<Longrightarrow> P \<in> {truthy, isArray}
           \<Longrightarrow> map_option P (get d' k) = map_option P (get d k)"
    and "\<And>P k'. tst P d' [''meta'', k'] = tst P d [''meta'', k']"
    and "tst (\<lambda>v. typeof v \<noteq> ''object'') d' [''meta'']
         = tst (\<lambda>v. typeof v \<noteq> ''object'') d [''meta'']"
    and "tst (\<lambda>v. typeof v \<noteq> ''object'') d' [''theme'']
         = tst (\<lambda>v. typeof v \<noteq> ''object'') d [''theme'']"
    and "tst (\<lambda>v. v \<noteq> JStr ''healthcare-calm'') d' [''theme'', ''preset'']
         = tst (\<lambda>v. v \<noteq> JStr ''healthcare-calm'') d [''theme'', ''preset'']"
    and "Option.bind (get d' ''roles'') validateRoles
         = Option.bind (get d ''roles'') validateRoles"
    and "Option.bind (get d' ''pages'') validatePages
         = Option.bind (get d ''pages'') validatePages"
    and "Option.bind (get d' ''workflow'') validateWorkflow
         = Option.bind (get d ''workflow'') validateWorkflow"
    and "Option.bind (get d' ''api'') validateApi = Option.bind (get d ''api'') validateApi"
    and "Option.bind (get d' ''analytics'') validateAnalytics
         = Option.bind (get d ''analytics'') validateAnalytics"
    and "Option.bind (get d' ''environments'') validateEnvironments
         = Option.bind (get d ''environments'') validateEnvironments"
  shows "isValidAppSpec d' = isValidAppSpec d"
proof -
  have t: "tst (\<lambda>v. \<not> truthy v) d' [k] = tst (\<lambda>v. \<not> truthy v) d [k]"
          "tst (\<lambda>v. \<not> isArray v) d' [k] = tst (\<lambda>v. \<not> isArray v) d [k]"
    if "k \<in> {''meta'', ''theme'', ''workflow'', ''api'', ''analytics'', ''environments'',
              ''roles'', ''pages''}" for k
    using assms(4)[OF that, of truthy] assms(4)[OF that, of isArray]
    by (cases "get d' k"; cases "get d k"; simp add: tst_def)+
  have i: "tst P d' [''id''] = tst P d [''id'']"
          "tst P d' [''version''] = tst P d [''version'']" for P
    using assms(3) by (simp_all add: tst_def)
  show ?thesis
    unfolding isValidAppSpec_def assms(1,2,5-14) i
    by (simp only: t insert_iff simp_thms)
qed

lemma bind_get_upd_in:
  "(\<And>w. V (f w) = V w)
   \<Longrightarrow> Option.bind (get (upd_in k f d) k) V = Option.bind (get d k) V"
  by (cases d) (simp_all add: map_of_upd split: option.splits)

lemma shape_get_upd_in:
  assumes "\<And>w. P (f w) = P w"
  shows "map_option P (get (upd_in k f d) k') = map_option P (get d k')"
  by (cases d) (simp_all add: map_of_upd assms split: option.splits)

text \<open>
  A change \<open>f\<close> to \<open>theme\<close>, \<open>roles\<close>, \<open>pages\<close> or \<open>analytics\<close> that keeps what the
  validator reads there keeps the verdict.
\<close>

lemma isValidAppSpec_upd_in:
  assumes k: "k \<in> {''theme'', ''roles'', ''pages'', ''analytics''}"
    and shape: "\<And>w. truthy (f w) = truthy w" "\<And>w. typeof (f w) = typeof w"
       "\<And>w. isArray (f w) = isArray w"
    and preset: "\<And>w. get (f w) ''preset'' = get w ''preset''"
    and sub: "\<And>w. validateRoles (f w) = validateRoles w \<or> k \<noteq> ''roles''"
       "\<And>w. validatePages (f w) = validatePages w \<or> k \<noteq> ''pages''"
       "\<And>w. validateAnalytics (f w) = validateAnalytics w \<or> k \<noteq> ''analytics''"
  shows "isValidAppSpec (upd_in k f d) = isValidAppSpec d"
proof (rule isValidAppSpec_cong)
  show "Option.bind (get (upd_in k f d) ''roles'') validateRoles
        = Option.bind (get d ''roles'') validateRoles"
    using sub(1) by (cases "k = ''roles''") (simp_all add: bind_get_upd_in get_upd_in_other)
  show "Option.bind (get (upd_in k f d) ''pages'') validatePages
        = Option.bind (get d ''pages'') validatePages"
    using sub(2) by (cases "k = ''pages''") (simp_all add: bind_get_upd_in get_upd_in_other)
  show "Option.bind (get (upd_in k f d) ''analytics'') validateAnalytics
        = Option.bind (get d ''analytics'') validateAnalytics"
    using sub(3)
    by (cases "k = ''analytics''") (simp_all add: bind_get_upd_in get_upd_in_other)
  show "Option.bind (get (upd_in k f d) ''workflow'') validateWorkflow
        = Option.bind (get d ''workflow'') validateWorkflow"
    "Option.bind (get (upd_in k f d) ''api'') validateApi
        = Option.bind (get d ''api'') validateApi"
    "Option.bind (get (upd_in k f d) ''environments'') validateEnvironments
        = Option.bind (get d ''environments'') validateEnvironments"
    using k by (auto simp: get_upd_in_other)
  show "\<And>k'. k' \<in> {''id'', ''version''} \<Longrightarrow> get (upd_in k f d) k' = get d k'"
    using k by (auto simp: get_upd_in_other)
  show "\<And>P k'. tst P (upd_in k f d) [''meta'', k'] = tst P d [''meta'', k']"
    "tst (\<lambda>v. typeof v \<noteq> ''object'') (upd_in k f d) [''meta'']
     = tst (\<lambda>v. typeof v \<noteq> ''object'') d [''meta'']"
    using k by (auto simp: get_upd_in_other tst_def)
  show "\<And>k' P. k' \<in> {''meta'', ''theme'', ''workflow'', ''api'', ''analytics'',
                       ''environments'', ''roles'', ''pages''}
           \<Longrightarrow> P \<in> {truthy, isArray}
           \<Longrightarrow> map_option P (get (upd_in k f d) k') = map_option P (get d k')"
    using shape by (auto intro: shape_get_upd_in)
  have "map_option typeof (get (upd_in k f d) ''theme'') = map_option typeof (get d ''theme'')"
    using shape by (auto intro: shape_get_upd_in)
  then show "tst (\<lambda>v. typeof v \<noteq> ''object'') (upd_in k f d) [''theme'']
             = tst (\<lambda>v. typeof v \<noteq> ''object'') d [''theme'']"
    by (cases "get (upd_in k f d) ''theme''"; cases "get d ''theme''")
       (simp_all add: tst_def)
  have "rd (upd_in k f d) [''theme'', ''preset''] = rd d [''theme'', ''preset'']"
    using preset
    by (cases "k = ''theme''") (simp_all add: bind_get_upd_in get_upd_in_other)
  then show "tst (\<lambda>v. v \<noteq> JStr ''healthcare-calm'') (upd_in k f d) [''theme'', ''preset'']
         = tst (\<lambda>v. v \<noteq> JStr ''healthcare-calm'') d [''theme'', ''preset'']"
    by (simp add: tst_def)
qed simp_all

lemma ignored_theme_key:
  "k \<noteq> ''preset'' \<Longrightarrow> isValidAppSpec (upd_in ''theme'' (set_prop k x) d) = isValidAppSpec d"
  by (rule isValidAppSpec_upd_in) (simp_all add: get_set_prop)

lemma ignored_routePrefix:
  "isValidAppSpec (upd_in ''roles'' (upd_at i (set_prop ''routePrefix'' x)) d)
   = isValidAppSpec d"
  by (rule isValidAppSpec_upd_in) (simp_all add: validateRoles_upd get_upd_at)


lemma ignored_event_page:
  "isValidAppSpec (upd_in ''analytics'' (upd_in ''events'' (upd_at i (set_prop ''page'' x))) d)
   = isValidAppSpec d"
  by (rule isValidAppSpec_upd_in) (simp_all add: validateAnalytics_upd get_upd_in_other)

text \<open>
  C10: \<open>isValidAppSpec\<close> does not inspect \<open>theme.logo\<close>, \<open>theme.colors\<close>, the
  \<open>routePrefix\<close> of a role or the \<open>page\<close> of an analytics event: an assignment of any
  value to one of them leaves the verdict as it was, so a document that passes its checks
  is still accepted with a value of the wrong type there.
\<close>

theorem isValidAppSpec_ignores_optionals:
  "isValidAppSpec (upd_in ''theme'' (set_prop ''logo'' x) d) = isValidAppSpec d
   \<and> isValidAppSpec (upd_in ''theme'' (set_prop ''colors'' x) d) = isValidAppSpec d
   \<and> isValidAppSpec (upd_in ''roles'' (upd_at i (set_prop ''routePrefix'' x)) d)
       = isValidAppSpec d
   \<and> isValidAppSpec
         (upd_in ''analytics'' (upd_in ''events'' (upd_at i (set_prop ''page'' x))) d)
       = isValidAppSpec d"
  using ignored_theme_key[of "''logo''"] ignored_theme_key[of "''colors''"]
    ignored_routePrefix ignored_event_page
  by simp

theorem isValidAppSpec_ignores_optionals_witness:
  "isValidAppSpec spec_with_odd_optionals = Some True
   \<and> isValidAppSpec (upd_in ''theme'' (set_prop ''logo'' (JNum 42)) valid_spec) = Some True
   \<and> isValidAppSpec (upd_in ''roles'' (upd_at 0 (set_prop ''routePrefix'' (JBool False)))
        valid_spec) = Some True"
proof -
  let ?d3 = "upd_in ''analytics'' (upd_in ''events'' (upd_at 0 (set_prop ''page'' (JBool True))))
       valid_spec"
  let ?d2 = "upd_in ''roles'' (upd_at 0 (set_prop ''routePrefix'' (JBool False))) ?d3"
  let ?d1 = "upd_in ''theme'' (set_prop ''colors'' (JNum 7)) ?d2"
  have "isValidAppSpec ?d3 = isValidAppSpec valid_spec"
    using isValidAppSpec_ignores_optionals[where d = valid_spec and i = 0 and x = "JBool True"] by blast
  moreover have "isValidAppSpec ?d2 = isValidAppSpec ?d3"
    using isValidAppSpec_ignores_optionals[where d = ?d3 and i = 0 and x = "JBool False"] by blast
  moreover have "isValidAppSpec ?d1 = isValidAppSpec ?d2"
    using isValidAppSpec_ignores_optionals[where d = ?d2 and x = "JNum 7"] by blast
  moreover have "isValidAppSpec spec_with_odd_optionals = isValidAppSpec ?d1"
    unfolding spec_with_odd_optionals_def
    using isValidAppSpec_ignores_optionals[where d = ?d1 and x = "JNum 42"] by blast
  moreover have "isValidAppSpec (upd_in ''theme'' (set_prop ''logo'' (JNum 42)) valid_spec)
      = isValidAppSpec valid_spec"
    using isValidAppSpec_ignores_optionals[where d = valid_spec and x = "JNum 42"] by blast
  moreover have "isValidAppSpec (upd_in ''roles'' (upd_at 0 (set_prop ''routePrefix'' (JBool False)))
        valid_spec) = isValidAppSpec valid_spec"
    using isValidAppSpec_ignores_optionals[where d = valid_spec and i = 0 and x = "JBool False"] by blast
  ultimately show ?thesis using valid_spec_ok by simp
qed

subsection \<open>What a positive verdict implies\<close>














section \<open>Properties of the naming heuristic\<close>

lemmas naming_defs = generateHeuristicName_def stripped_def normalized_def untitled_def
  generateSlug_def generateName_def capitalize_def split_ws_def trim_def startsWith_def
  COMMON_PREFIXES_def NAME_MAX_LENGTH_def SLUG_MAX_LENGTH_def js_def isWhiteSpace_def
  isCombiningMark_def isSlugChar_def isHyphen_def ascii_lower_def ascii_upper_def

lemma faithful_lower:
    "ascii_faithful U \<Longrightarrow> is_ascii s \<Longrightarrow> toLowerCase U s = map ascii_lower s"
  and faithful_upper:
    "ascii_faithful U \<Longrightarrow> is_ascii s \<Longrightarrow> toUpperCase U s = map ascii_upper s"
  and faithful_nfd:
    "ascii_faithful U \<Longrightarrow> is_ascii s \<Longrightarrow> normalizeNFD U s = s"
  by (simp_all add: ascii_faithful_def)

lemmas faithful = faithful_lower faithful_upper faithful_nfd is_ascii_def

lemma ascii_tables_faithful: "ascii_faithful ascii_tables"
  by (simp add: ascii_faithful_def ascii_tables_def)

lemma generateHeuristicName_cases:
  "generateHeuristicName U intent =
    (if stripped U intent = [] \<or> generateSlug U (stripped U intent) = [] then untitled
     else \<lparr>name = generateName U (stripped U intent),
           slug = generateSlug U (stripped U intent)\<rparr>)"
  by (simp add: generateHeuristicName_def Let_def)

lemma strip_prefix_find:
  "strip_prefix l p ps =
     (case find (startsWith l) ps of None \<Rightarrow> p | Some pre \<Rightarrow> trim (drop (length pre) p))"
  by (induction ps) auto

lemma generateSlug_non_ascii:
  assumes "\<forall>c\<in>set (normalizeNFD U (toLowerCase U p)). c > 127"
  shows "generateSlug U p = []"
proof -
  have "filter (\<lambda>c. c \<le> 127)
          (filter (\<lambda>c. \<not> isCombiningMark c) (normalizeNFD U (toLowerCase U p))) = []"
    using assms by (auto simp: filter_empty_conv)
  then show ?thesis by (simp add: generateSlug_def Let_def)
qed

subsection \<open>Inputs of white space, inputs of punctuation\<close>

lemma replace_runs_set: "set (replace_runs P r s) \<subseteq> set r \<union> {c \<in> set s. \<not> P c}"
  by (induction P r s rule: replace_runs.induct) (auto dest: set_dropWhileD)

lemma replace_runs_none: "\<forall>c\<in>set s. \<not> P c \<Longrightarrow> replace_runs P r s = s"
  by (induction s) auto

lemma dropWhile_all: "\<forall>c\<in>set s. P c \<Longrightarrow> dropWhile P s = []"
  by simp

lemma dropWhile_none: "\<forall>c\<in>set s. \<not> P c \<Longrightarrow> dropWhile P s = s"
  by (cases s) auto

lemma trim_whitespace: "\<forall>c\<in>set s. isWhiteSpace c \<Longrightarrow> trim s = []"
proof -
  assume "\<forall>c\<in>set s. isWhiteSpace c"
  then have d: "dropWhile isWhiteSpace s = []" by (rule dropWhile_all)
  show ?thesis unfolding trim_def d by simp
qed

lemma trim_none: "\<forall>c\<in>set s. \<not> isWhiteSpace c \<Longrightarrow> trim s = s"
  by (simp add: trim_def dropWhile_none)

lemma normalized_whitespace:
  assumes "\<forall>c\<in>set intent. isWhiteSpace c"
  shows "normalized intent = []"
proof -
  have "set (replace_runs isWhiteSpace (js '' '') intent) \<subseteq> {32}"
    using replace_runs_set[of isWhiteSpace "js '' ''" intent] assms by (auto simp: js_def)
  then have "\<forall>c\<in>set (replace_runs isWhiteSpace (js '' '') intent). isWhiteSpace c"
    by (auto simp: isWhiteSpace_def)
  then show ?thesis unfolding normalized_def by (rule trim_whitespace)
qed

lemma strip_prefix_Nil: "strip_prefix l [] ps = []"
  by (induction ps) (auto simp: trim_def)

lemma whitespace_only:
  assumes "\<forall>c\<in>set intent. isWhiteSpace c"
  shows "generateHeuristicName U intent = untitled"
  by (simp add: generateHeuristicName_cases stripped_def normalized_whitespace[OF assms]
      strip_prefix_Nil)

lemma generateSlug_empty:
  assumes "\<forall>c\<in>set (normalizeNFD U (toLowerCase U p)). \<not> isLowerAlnum c"
  shows "generateSlug U p = []"
proof -
  define s4 where "s4 = map (\<lambda>c. if isSlugChar c then c else 32)
     (map (\<lambda>c. if c = 95 then 45 else c)
       (filter (\<lambda>c. c \<le> 127)
         (filter (\<lambda>c. \<not> isCombiningMark c) (normalizeNFD U (toLowerCase U p)))))"
  have "\<forall>c\<in>set s4. isWhiteSpace c \<or> c = 45"
    using assms unfolding s4_def
    by (auto simp: isSlugChar_def isLowerAlnum_def isWhiteSpace_def)
  then have "set (replace_runs isWhiteSpace (js ''-'') s4) \<subseteq> {45}"
    using replace_runs_set[of isWhiteSpace "js ''-''" s4] by (auto simp: js_def)
  then have "set (replace_runs isHyphen (js ''-'')
       (replace_runs isWhiteSpace (js ''-'') s4)) \<subseteq> {45}"
    using replace_runs_set[of isHyphen "js ''-''" "replace_runs isWhiteSpace (js ''-'') s4"]
    by (auto simp: js_def)
  then have d: "dropWhile isHyphen (replace_runs isHyphen (js ''-'')
       (replace_runs isWhiteSpace (js ''-'') s4)) = []"
    by (intro dropWhile_all) (auto simp: isHyphen_def)
  show ?thesis unfolding generateSlug_def Let_def s4_def[symmetric] d by simp
qed

lemma punct_facts:
  assumes "\<forall>c\<in>set s. isPunctuation c"
  shows "is_ascii s" "map ascii_lower s = s" "\<forall>c\<in>set s. \<not> isWhiteSpace c"
    "\<forall>c\<in>set s. \<not> isLowerAlnum c"
proof -
  show "is_ascii s" "\<forall>c\<in>set s. \<not> isWhiteSpace c" "\<forall>c\<in>set s. \<not> isLowerAlnum c"
    using assms
    by (auto simp: is_ascii_def list_all_iff isPunctuation_def isWhiteSpace_def
        isLowerAlnum_def)
  show "map ascii_lower s = s"
    using assms by (intro map_idI) (auto simp: isPunctuation_def ascii_lower_def)
qed

lemma punct_no_prefix:
  assumes "\<forall>c\<in>set s. isPunctuation c" and "pre \<in> set COMMON_PREFIXES"
  shows "\<not> startsWith s pre"
proof (cases s)
  case Nil
  with assms(2) show ?thesis by (auto simp: startsWith_def COMMON_PREFIXES_def js_def)
next
  case (Cons c cs)
  with assms(1) have "isPunctuation c" by simp
  then have "c \<notin> {105, 98, 99, 109}" by (auto simp: isPunctuation_def)
  moreover from assms(2) obtain p0 ps where "pre = p0 # ps" "p0 \<in> {105, 98, 99, 109}"
    by (auto simp: COMMON_PREFIXES_def js_def)
  ultimately show ?thesis using Cons by (auto simp: startsWith_def)
qed

lemma strip_prefix_no_match:
  "\<forall>pre\<in>set ps. \<not> startsWith l pre \<Longrightarrow> strip_prefix l p ps = p"
  by (induction ps) auto

lemma punctuation_only:
  assumes "ascii_faithful U" and "\<forall>c\<in>set intent. isPunctuation c"
  shows "generateHeuristicName U intent = untitled"
proof -
  note f = punct_facts[OF assms(2)]
  have n: "normalized intent = intent"
    by (simp add: normalized_def replace_runs_none[OF f(3)] trim_none[OF f(3)])
  have l: "toLowerCase U intent = intent"
    using faithful_lower[OF assms(1) f(1)] f(2) by simp
  have s: "stripped U intent = intent"
    using punct_no_prefix[OF assms(2)]
    by (simp add: stripped_def n l strip_prefix_no_match)
  have "normalizeNFD U (toLowerCase U intent) = intent"
    using faithful_nfd[OF assms(1) f(1)] l by simp
  then have "generateSlug U intent = []"
    using f(4) by (intro generateSlug_empty) simp
  then show ?thesis by (simp add: generateHeuristicName_cases s)
qed

text \<open>
  C7: for the empty string, for \<open>"   "\<close> and every other input of white space only,
  and for \<open>"!@#$%"\<close> and every other input of ASCII punctuation only, the result is
  the fallback \<open>{name: "Untitled App", slug: "untitled-app"}\<close>; and for every
  argument the result has a name and a slug, both strings.
\<close>

theorem generateHeuristicName_fallback:
  assumes "ascii_faithful U"
  shows "generateHeuristicName U (js '''')
           = \<lparr>name = js ''Untitled App'', slug = js ''untitled-app''\<rparr>
       \<and> generateHeuristicName U (js ''   '')
           = \<lparr>name = js ''Untitled App'', slug = js ''untitled-app''\<rparr>
       \<and> generateHeuristicName U (js ''!@#$%'')
           = \<lparr>name = js ''Untitled App'', slug = js ''untitled-app''\<rparr>
       \<and> ((\<forall>c\<in>set intent. isWhiteSpace c)
            \<longrightarrow> generateHeuristicName V intent
                = \<lparr>name = js ''Untitled App'', slug = js ''untitled-app''\<rparr>)
       \<and> ((\<forall>c\<in>set intent. isPunctuation c)
            \<longrightarrow> generateHeuristicName U intent
                = \<lparr>name = js ''Untitled App'', slug = js ''untitled-app''\<rparr>)
       \<and> (\<exists>n s. generateHeuristicName V intent = \<lparr>name = n, slug = s\<rparr>)"
proof -
  have "generateHeuristicName U (js '''')
           = \<lparr>name = js ''Untitled App'', slug = js ''untitled-app''\<rparr>"
    using assms by (simp add: naming_defs faithful)
  moreover have "generateHeuristicName U (js ''   '')
           = \<lparr>name = js ''Untitled App'', slug = js ''untitled-app''\<rparr>"
    using assms by (simp add: naming_defs faithful)
  moreover have "generateHeuristicName U (js ''!@#$%'')
           = \<lparr>name = js ''Untitled App'', slug = js ''untitled-app''\<rparr>"
    using assms by (simp add: naming_defs faithful)
  moreover have "\<exists>n s. generateHeuristicName V intent = \<lparr>name = n, slug = s\<rparr>"
    by (cases "generateHeuristicName V intent") auto
  ultimately show ?thesis
    using whitespace_only[of intent V] punctuation_only[OF assms, of intent]
    unfolding untitled_def by blast
qed

theorem generateHeuristicName_fallback_witness:
  "ascii_faithful ascii_tables
   \<and> list_all isPunctuation (js ''?!...'')
   \<and> generateHeuristicName ascii_tables (js ''?!...'')
       = \<lparr>name = js ''Untitled App'', slug = js ''untitled-app''\<rparr>
   \<and> list_all isWhiteSpace [9, 10, 32, 160]
   \<and> generateHeuristicName ascii_tables [9, 10, 32, 160]
       = \<lparr>name = js ''Untitled App'', slug = js ''untitled-app''\<rparr>"
proof -
  have p: "list_all isPunctuation (js ''?!...'')"
    by (simp add: isPunctuation_def js_def)
  have w: "list_all isWhiteSpace [9, 10, 32, 160]"
    by (simp add: isWhiteSpace_def)
  from p generateHeuristicName_fallback[OF ascii_tables_faithful, of "js ''?!...''"]
  have "generateHeuristicName ascii_tables (js ''?!...'')
       = \<lparr>name = js ''Untitled App'', slug = js ''untitled-app''\<rparr>"
    unfolding list_all_iff by blast
  moreover from w generateHeuristicName_fallback[OF ascii_tables_faithful,
      of "[9, 10, 32, 160]" ascii_tables]
  have "generateHeuristicName ascii_tables [9, 10, 32, 160]
       = \<lparr>name = js ''Untitled App'', slug = js ''untitled-app''\<rparr>"
    unfolding list_all_iff by blast
  ultimately show ?thesis using p w ascii_tables_faithful by blast
qed

text \<open>
  C8: at most one request prefix is cut off, the first of the list that the lower-cased,
  whitespace-normalised input starts with, whatever the case of its letters; when the
  input starts with none, nothing is cut off, also when a prefix occurs further on.
  \<open>"I need a task manager app"\<close> gives \<open>"Task Manager App"\<close> and
  \<open>"task-manager-app"\<close>.
\<close>

theorem generateHeuristicName_strips_leading_prefix:
  assumes "ascii_faithful U"
  shows "generateHeuristicName U (js ''I need a task manager app'')
           = \<lparr>name = js ''Task Manager App'', slug = js ''task-manager-app''\<rparr>
       \<and> stripped V intent =
           (case find (startsWith (toLowerCase V (normalized intent))) COMMON_PREFIXES of
              None \<Rightarrow> normalized intent
            | Some pre \<Rightarrow> trim (drop (length pre) (normalized intent)))
       \<and> ((\<forall>pre\<in>set COMMON_PREFIXES. \<not> startsWith (toLowerCase V (normalized intent)) pre)
            \<longrightarrow> stripped V intent = normalized intent)
       \<and> generateHeuristicName U (js ''i NEED a Weather App'')
           = \<lparr>name = js ''Weather App'', slug = js ''weather-app''\<rparr>
       \<and> generateHeuristicName U (js ''please create a blog'')
           = \<lparr>name = js ''Please Create A Blog'', slug = js ''please-create-a-blog''\<rparr>
       \<and> generateHeuristicName U (js ''I need a create a blog'')
           = \<lparr>name = js ''Create A Blog'', slug = js ''create-a-blog''\<rparr>"
proof -
  have "generateHeuristicName U (js ''I need a task manager app'')
           = \<lparr>name = js ''Task Manager App'', slug = js ''task-manager-app''\<rparr>"
    using assms by (simp add: naming_defs faithful)
  moreover have f: "stripped V intent =
           (case find (startsWith (toLowerCase V (normalized intent))) COMMON_PREFIXES of
              None \<Rightarrow> normalized intent
            | Some pre \<Rightarrow> trim (drop (length pre) (normalized intent)))"
    by (simp add: stripped_def Let_def strip_prefix_find)
  moreover have "stripped V intent = normalized intent"
    if "\<forall>pre\<in>set COMMON_PREFIXES. \<not> startsWith (toLowerCase V (normalized intent)) pre"
  proof -
    from that have "find (startsWith (toLowerCase V (normalized intent))) COMMON_PREFIXES = None"
      by (simp add: find_None_iff)
    then show ?thesis using f by simp
  qed
  moreover have "generateHeuristicName U (js ''i NEED a Weather App'')
           = \<lparr>name = js ''Weather App'', slug = js ''weather-app''\<rparr>"
    using assms by (simp add: naming_defs faithful)
  moreover have "generateHeuristicName U (js ''please create a blog'')
           = \<lparr>name = js ''Please Create A Blog'', slug = js ''please-create-a-blog''\<rparr>"
    using assms by (simp add: naming_defs faithful)
  moreover have "generateHeuristicName U (js ''I need a create a blog'')
           = \<lparr>name = js ''Create A Blog'', slug = js ''create-a-blog''\<rparr>"
    using assms by (simp add: naming_defs faithful)
  ultimately show ?thesis by blast
qed

theorem generateHeuristicName_strips_leading_prefix_witness:
  "ascii_faithful ascii_tables
   \<and> generateHeuristicName ascii_tables (js ''I need a task manager app'')
       = \<lparr>name = js ''Task Manager App'', slug = js ''task-manager-app''\<rparr>
   \<and> \<not> (\<exists>pre\<in>set COMMON_PREFIXES.
         startsWith (toLowerCase ascii_tables (normalized (js ''please create a blog''))) pre)
   \<and> stripped ascii_tables (js ''please create a blog'') = js ''please create a blog''"
proof -
  have a: "\<forall>pre\<in>set COMMON_PREFIXES.
         \<not> startsWith (toLowerCase ascii_tables (normalized (js ''please create a blog''))) pre"
    by (simp add: naming_defs ascii_tables_def)
  have n: "normalized (js ''please create a blog'') = js ''please create a blog''"
    by (simp add: naming_defs)
  from a generateHeuristicName_strips_leading_prefix[OF ascii_tables_faithful,
      of ascii_tables "js ''please create a blog''"]
  have "stripped ascii_tables (js ''please create a blog'')
        = normalized (js ''please create a blog'')"
    by blast
  moreover from generateHeuristicName_strips_leading_prefix[OF ascii_tables_faithful]
  have "generateHeuristicName ascii_tables (js ''I need a task manager app'')
       = \<lparr>name = js ''Task Manager App'', slug = js ''task-manager-app''\<rparr>"
    by blast
  ultimately show ?thesis using a n ascii_tables_faithful by simp
qed

text \<open>
  C9: when what is left of the input after normalisation and prefix stripping is not empty
  and its slug is empty, the result is the whole fallback pair, the name computed from it
  being dropped; so it is when the lower-cased, decomposed text has no ASCII code unit.
  The result is either the fallback pair, or the computed name with the computed,
  non-empty slug.
\<close>

theorem generateHeuristicName_fallback_is_a_pair:
  "(stripped U intent \<noteq> [] \<and> generateSlug U (stripped U intent) = []
      \<longrightarrow> generateHeuristicName U intent
          = \<lparr>name = js ''Untitled App'', slug = js ''untitled-app''\<rparr>)
   \<and> ((\<forall>c\<in>set (normalizeNFD U (toLowerCase U (stripped U intent))). c > 127)
      \<longrightarrow> generateHeuristicName U intent
          = \<lparr>name = js ''Untitled App'', slug = js ''untitled-app''\<rparr>)
   \<and> (generateHeuristicName U intent
          = \<lparr>name = js ''Untitled App'', slug = js ''untitled-app''\<rparr>
      \<or> generateHeuristicName U intent
          = \<lparr>name = generateName U (stripped U intent),
             slug = generateSlug U (stripped U intent)\<rparr>
        \<and> generateSlug U (stripped U intent) \<noteq> [])"
  using generateSlug_non_ascii[of U "stripped U intent"]
  by (auto simp: generateHeuristicName_cases untitled_def)

theorem generateHeuristicName_fallback_is_a_pair_witness:
  "stripped ascii_tables [55357, 56960] \<noteq> []
   \<and> generateSlug ascii_tables (stripped ascii_tables [55357, 56960]) = []
   \<and> generateName ascii_tables (stripped ascii_tables [55357, 56960]) = [55357, 56960]
   \<and> generateHeuristicName ascii_tables [55357, 56960]
       = \<lparr>name = js ''Untitled App'', slug = js ''untitled-app''\<rparr>"
proof -
  have s: "stripped ascii_tables [55357, 56960] = [55357, 56960]"
    by (simp add: naming_defs ascii_tables_def)
  have g: "generateSlug ascii_tables [55357, 56960] = []"
    by (simp add: naming_defs ascii_tables_def)
  have n: "generateName ascii_tables [55357, 56960] = [55357, 56960]"
    by (simp add: naming_defs ascii_tables_def)
  from s g generateHeuristicName_fallback_is_a_pair[of ascii_tables "[55357, 56960]"]
  have "generateHeuristicName ascii_tables [55357, 56960]
       = \<lparr>name = js ''Untitled App'', slug = js ''untitled-app''\<rparr>"
    by simp
  then show ?thesis using s g n by simp
qed

section \<open>Properties of the prompt compiler\<close>

subsection \<open>When the compilation fails, and with what\<close>

lemma bindE_Inr_iff: "bindE m f = Inr y \<longleftrightarrow> (\<exists>x. m = Inr x \<and> f x = Inr y)"
  by (cases m) auto

lemma bindE_Inl_iff: "bindE m f = Inl e \<longleftrightarrow> m = Inl e \<or> (\<exists>x. m = Inr x \<and> f x = Inl e)"
  by (cases m) auto

lemma mapE_Inl:
  "mapE f xs = Inl e \<Longrightarrow> \<exists>x\<in>set xs. f x = Inl e"
  by (induction xs arbitrary: e) (auto simp: bindE_Inl_iff)

lemma mapE_Inr: "(\<forall>x\<in>set xs. \<exists>y. f x = Inr y) \<Longrightarrow> \<exists>ys. mapE f xs = Inr ys"
  by (induction xs) auto

lemma mapE_Inr_all: "mapE f xs = Inr ys \<Longrightarrow> \<forall>x\<in>set xs. \<exists>y. f x = Inr y"
  by (induction xs arbitrary: ys) (auto simp: bindE_Inr_iff)

lemma mapE_Inr_map: "mapE f xs = Inr ys \<Longrightarrow> list_all2 (\<lambda>x y. f x = Inr y) xs ys"
  by (induction xs arbitrary: ys) (auto simp: bindE_Inr_iff)

lemma render_field_Inl:
  "render_field f = Inl e \<longleftrightarrow>
     field_type f \<notin> set SUPPORTED_FIELD_TYPES \<and> e = unsupported_field_type (field_type f)"
  by (auto simp: render_field_def)

lemma render_field_Inr:
  "(\<exists>y. render_field f = Inr y) \<longleftrightarrow> field_type f \<in> set SUPPORTED_FIELD_TYPES"
  by (auto simp: render_field_def)

lemma render_page_Inl:
  assumes "render_page p = Inl e"
  shows "page_type p \<notin> set SUPPORTED_PAGE_TYPES \<and> e = unsupported_page_type (page_type p)
     \<or> (\<exists>f\<in>set (list_of (page_fields p)). field_type f \<notin> set SUPPORTED_FIELD_TYPES
          \<and> e = unsupported_field_type (field_type f))"
proof (cases "page_type p \<in> set SUPPORTED_PAGE_TYPES")
  case False
  with assms show ?thesis by (auto simp: render_page_def)
next
  case True
  with assms have "mapE render_field (list_of (page_fields p)) = Inl e"
    by (auto simp: render_page_def bindE_Inl_iff)
  from mapE_Inl[OF this] show ?thesis by (auto simp: render_field_Inl)
qed

lemma render_page_Inr:
  "(\<exists>y. render_page p = Inr y) \<longleftrightarrow>
     page_type p \<in> set SUPPORTED_PAGE_TYPES
     \<and> (\<forall>f\<in>set (list_of (page_fields p)). field_type f \<in> set SUPPORTED_FIELD_TYPES)"
proof
  assume "\<exists>y. render_page p = Inr y"
  then obtain y where y: "render_page p = Inr y" ..
  then have t: "page_type p \<in> set SUPPORTED_PAGE_TYPES"
    by (auto simp: render_page_def split: if_splits)
  with y obtain fs where "mapE render_field (list_of (page_fields p)) = Inr fs"
    by (auto simp: render_page_def bindE_Inr_iff)
  from mapE_Inr_all[OF this] t
  show "page_type p \<in> set SUPPORTED_PAGE_TYPES
     \<and> (\<forall>f\<in>set (list_of (page_fields p)). field_type f \<in> set SUPPORTED_FIELD_TYPES)"
    by (auto simp: render_field_Inr[symmetric])
next
  assume a: "page_type p \<in> set SUPPORTED_PAGE_TYPES
     \<and> (\<forall>f\<in>set (list_of (page_fields p)). field_type f \<in> set SUPPORTED_FIELD_TYPES)"
  then have "\<forall>f\<in>set (list_of (page_fields p)). \<exists>y. render_field f = Inr y"
    by (simp add: render_field_Inr)
  from mapE_Inr[OF this] a show "\<exists>y. render_page p = Inr y"
    by (auto simp: render_page_def)
qed

lemma render_pages_Inr: "(\<exists>y. render_pages ps = Inr y) \<longleftrightarrow> pages_ok ps"
proof
  assume "\<exists>y. render_pages ps = Inr y"
  then obtain ys where "mapE render_page ps = Inr ys"
    by (auto simp: render_pages_def bindE_Inr_iff)
  from mapE_Inr_all[OF this] show "pages_ok ps"
    by (simp add: pages_ok_def render_page_Inr)
next
  assume "pages_ok ps"
  then have "\<forall>p\<in>set ps. \<exists>y. render_page p = Inr y"
    by (simp add: pages_ok_def render_page_Inr)
  from mapE_Inr[OF this] show "\<exists>y. render_pages ps = Inr y"
    by (auto simp: render_pages_def)
qed

lemma render_pages_Inl:
  assumes "render_pages ps = Inl e"
  shows "\<exists>p\<in>set ps. page_type p \<notin> set SUPPORTED_PAGE_TYPES \<and> e = unsupported_page_type (page_type p)
     \<or> (\<exists>f\<in>set (list_of (page_fields p)). field_type f \<notin> set SUPPORTED_FIELD_TYPES
          \<and> e = unsupported_field_type (field_type f))"
proof -
  from assms have "mapE render_page ps = Inl e"
    by (auto simp: render_pages_def bindE_Inl_iff)
  from mapE_Inl[OF this] obtain p where "p \<in> set ps" "render_page p = Inl e" by blast
  then show ?thesis using render_page_Inl by blast
qed

lemma check_states_Inr:
  "(\<exists>ys. mapE check_state ss = Inr ys) \<longleftrightarrow> (\<forall>s\<in>set ss. s \<in> set SUPPORTED_STATES)"
proof
  assume "\<exists>ys. mapE check_state ss = Inr ys"
  then obtain ys where "mapE check_state ss = Inr ys" ..
  from mapE_Inr_all[OF this] show "\<forall>s\<in>set ss. s \<in> set SUPPORTED_STATES"
    by (auto simp: check_state_def split: if_splits)
next
  assume "\<forall>s\<in>set ss. s \<in> set SUPPORTED_STATES"
  then have "\<forall>s\<in>set ss. \<exists>y. check_state s = Inr y" by (simp add: check_state_def)
  from mapE_Inr[OF this] show "\<exists>ys. mapE check_state ss = Inr ys" .
qed

lemma check_states_Inl:
  assumes "mapE check_state ss = Inl e"
  shows "\<exists>s\<in>set ss. s \<notin> set SUPPORTED_STATES \<and> e = unsupported_state s"
  using mapE_Inl[OF assms] by (auto simp: check_state_def split: if_splits)

lemma sum_cases2: "(\<exists>e. m = Inl e) \<or> (\<exists>y. m = Inr y)"
  by (cases m) auto

lemma render_workflow_cases:
  "render_workflow w =
     (case mapE check_state (workflow_states w) of
        Inl e \<Rightarrow> Inl e
      | Inr states \<Rightarrow>
          if length (workflow_transitions w) > 3 * length (workflow_states w)
          then Inl (workflow_too_complex (length (workflow_transitions w))
                   (length (workflow_states w)))
          else Inr
         (js ''WORKFLOW'' @ nl
          @ js ''States: '' @ comma_list states @ nl
          @ js ''Initial state: '' @ workflow_initialState w @ nl
          @ concat (map render_transition (workflow_transitions w))))"
  by (cases "mapE check_state (workflow_states w)") (simp_all add: render_workflow_def)


lemma render_workflow_Inr:
  "(\<exists>y. render_workflow w = Inr y) \<longleftrightarrow>
     (\<forall>s\<in>set (workflow_states w). s \<in> set SUPPORTED_STATES)
     \<and> length (workflow_transitions w) \<le> 3 * length (workflow_states w)"
proof (cases "mapE check_state (workflow_states w)")
  case (Inl e)
  then have "\<not> (\<forall>s\<in>set (workflow_states w). s \<in> set SUPPORTED_STATES)"
    using check_states_Inr[of "workflow_states w"] by simp
  then show ?thesis using Inl by (simp add: render_workflow_cases)
next
  case (Inr ys)
  then have "\<forall>s\<in>set (workflow_states w). s \<in> set SUPPORTED_STATES"
    using check_states_Inr[of "workflow_states w"] by blast
  then show ?thesis using Inr by (simp add: render_workflow_cases)
qed


lemma render_workflow_state_error:
  assumes "\<not> (\<forall>s\<in>set (workflow_states w). s \<in> set SUPPORTED_STATES)"
  shows "\<exists>s\<in>set (workflow_states w). s \<notin> set SUPPORTED_STATES
          \<and> render_workflow w = Inl (unsupported_state s)"
proof -
  from assms have "\<not> (\<exists>ys. mapE check_state (workflow_states w) = Inr ys)"
    using check_states_Inr[of "workflow_states w"] by simp
  then obtain e where e: "mapE check_state (workflow_states w) = Inl e"
    by (cases "mapE check_state (workflow_states w)") auto
  from check_states_Inl[OF e] obtain s where s: "s \<in> set (workflow_states w)"
    "s \<notin> set SUPPORTED_STATES" "e = unsupported_state s" by blast
  have "render_workflow w = Inl e" by (simp only: render_workflow_cases e sum.case)
  with s show ?thesis by blast
qed

lemma compile_cases:
  "compileAppSpecToPrompt S =
     (case render_pages (spec_pages S) of Inl e \<Rightarrow> Inl e
      | Inr pages \<Rightarrow> (case render_workflow (spec_workflow S) of Inl e \<Rightarrow> Inl e
          | Inr workflow \<Rightarrow> Inr
       (render_header S
        @ js ''ROLES'' @ nl @ concat (map render_role (spec_roles S))
        @ render_theme (spec_theme S)
        @ pages
        @ workflow
        @ render_api (spec_api S)
        @ js ''ANALYTICS'' @ nl @ concat (map render_event (analytics_events (spec_analytics S)))
        @ render_environments (spec_environments S)
        @ CONSTRAINTS)))"
  by (cases "render_pages (spec_pages S)"; cases "render_workflow (spec_workflow S)")
     (simp_all add: compileAppSpecToPrompt_def)

lemma within_allow_lists_iff:
  "within_allow_lists S \<longleftrightarrow> pages_ok (spec_pages S)
     \<and> (\<forall>s\<in>set (workflow_states (spec_workflow S)). s \<in> set SUPPORTED_STATES)"
  by (auto simp: within_allow_lists_def pages_ok_def list_all_iff)

lemma offending_empty: "offending S = {} \<longleftrightarrow> within_allow_lists S"
  by (auto simp: offending_def within_allow_lists_iff pages_ok_def)

lemma compile_succeeds_iff:
  "(\<exists>p. compileAppSpecToPrompt S = Inr p) \<longleftrightarrow>
     within_allow_lists S
     \<and> length (workflow_transitions (spec_workflow S)) \<le> 3 * length (workflow_states (spec_workflow S))"
proof -
  have "(\<exists>p. compileAppSpecToPrompt S = Inr p) \<longleftrightarrow>
      (\<exists>y. render_pages (spec_pages S) = Inr y) \<and> (\<exists>y. render_workflow (spec_workflow S) = Inr y)"
    by (cases "render_pages (spec_pages S)"; cases "render_workflow (spec_workflow S)")
       (simp_all add: compile_cases)
  then show ?thesis
    unfolding render_pages_Inr render_workflow_Inr within_allow_lists_iff by blast
qed


lemma compile_offending:
  assumes "offending S \<noteq> {}"
  shows "\<exists>x\<in>offending S. compileAppSpecToPrompt S \<in>
     {Inl (unsupported_page_type x), Inl (unsupported_field_type x), Inl (unsupported_state x)}"
proof (cases "render_pages (spec_pages S)")
  case (Inl e)
  from render_pages_Inl[OF Inl] have "\<exists>x\<in>offending S. e \<in> {unsupported_page_type x, unsupported_field_type x}"
    by (fastforce simp: offending_def)
  then show ?thesis using Inl by (auto simp: compile_cases)
next
  case (Inr y)
  then have "pages_ok (spec_pages S)" using render_pages_Inr[of "spec_pages S"] by blast
  with assms have "\<not> (\<forall>s\<in>set (workflow_states (spec_workflow S)). s \<in> set SUPPORTED_STATES)"
    using offending_empty[of S] within_allow_lists_iff[of S] by blast
  from render_workflow_state_error[OF this] obtain s where
    "s \<in> set (workflow_states (spec_workflow S))" "s \<notin> set SUPPORTED_STATES"
    "render_workflow (spec_workflow S) = Inl (unsupported_state s)" by blast
  then show ?thesis using Inr by (auto simp: compile_cases offending_def)
qed

subsection \<open>What an error says\<close>

lemma sublist_trans: "sublist xs ys \<Longrightarrow> sublist ys zs \<Longrightarrow> sublist xs zs"
  using sublist_order.order_trans by blast

lemma sublist_mid: "sublist x b \<Longrightarrow> sublist x (a @ b @ c)"
  by (rule sublist_trans[of x b]) auto

lemma sublist_left: "sublist x a \<Longrightarrow> sublist x (a @ b)"
  by (rule sublist_trans[of x a]) auto

lemma sublist_right: "sublist x b \<Longrightarrow> sublist x (a @ b)"
  by (rule sublist_trans[of x b]) auto

lemma sublist_join: "x \<in> set xs \<Longrightarrow> sublist x (join sep xs)"
proof (induction sep xs rule: join.induct)
  case (3 sep w v ws)
  show ?case
  proof (cases "x = w")
    case True then show ?thesis by simp
  next
    case False
    with 3 have "sublist x (join sep (v # ws))" by simp
    then have "sublist x ((w @ sep) @ join sep (v # ws))" by (rule sublist_right)
    then show ?thesis by simp
  qed
qed simp_all

lemma sublist_concat: "y \<in> set ys \<Longrightarrow> sublist y (concat ys)"
  by (induction ys) (auto intro: sublist_right)

lemma message_page:
  "sublist t (message (unsupported_page_type t))"
  "sublist (js ''not supported'') (message (unsupported_page_type t))"
proof -
  have "message (unsupported_page_type t) = (js ''Page type '' @ dq) @ t @
     (dq @ js '' is '' @ js ''not supported'' @ js '' in v1. Supported types: ''
        @ comma_list SUPPORTED_PAGE_TYPES)"
    by (simp add: unsupported_page_type_def)
  then show "sublist t (message (unsupported_page_type t))"
    by (simp only: sublist_appendI)
  have "message (unsupported_page_type t) = (js ''Page type '' @ dq @ t @ dq @ js '' is '') @
      js ''not supported'' @ (js '' in v1. Supported types: '' @ comma_list SUPPORTED_PAGE_TYPES)"
    by (simp add: unsupported_page_type_def)
  then show "sublist (js ''not supported'') (message (unsupported_page_type t))"
    by (simp only: sublist_appendI)
qed

lemma message_field:
  "sublist t (message (unsupported_field_type t))"
  "sublist (js ''not supported'') (message (unsupported_field_type t))"
proof -
  have "message (unsupported_field_type t) = (js ''Field type '' @ dq) @ t @
     (dq @ js '' is '' @ js ''not supported'' @ js '' in v1. Supported types: ''
        @ comma_list SUPPORTED_FIELD_TYPES)"
    by (simp add: unsupported_field_type_def)
  then show "sublist t (message (unsupported_field_type t))"
    by (simp only: sublist_appendI)
  have "message (unsupported_field_type t) = (js ''Field type '' @ dq @ t @ dq @ js '' is '') @
      js ''not supported'' @ (js '' in v1. Supported types: '' @ comma_list SUPPORTED_FIELD_TYPES)"
    by (simp add: unsupported_field_type_def)
  then show "sublist (js ''not supported'') (message (unsupported_field_type t))"
    by (simp only: sublist_appendI)
qed

lemma message_state:
  "sublist t (message (unsupported_state t))"
  "sublist (js ''not supported'') (message (unsupported_state t))"
proof -
  have "message (unsupported_state t) = (js ''Workflow state '' @ dq) @ t @
     (dq @ js '' is '' @ js ''not supported'' @ js '' in v1.'')"
    by (simp add: unsupported_state_def)
  then show "sublist t (message (unsupported_state t))"
    by (simp only: sublist_appendI)
  have "message (unsupported_state t) = (js ''Workflow state '' @ dq @ t @ dq @ js '' is '') @
      js ''not supported'' @ js '' in v1.''"
    by (simp add: unsupported_state_def)
  then show "sublist (js ''not supported'') (message (unsupported_state t))"
    by (simp only: sublist_appendI)
qed

lemma compile_offending_message:
  assumes "offending S \<noteq> {}"
  shows "\<exists>x\<in>offending S. \<exists>msg feat sugg.
     compileAppSpecToPrompt S = Inl (UnsupportedAppSpecFeatureError msg feat sugg)
     \<and> sublist x msg \<and> sublist (js ''not supported'') msg"
proof -
  from compile_offending[OF assms] obtain x where x: "x \<in> offending S"
    and c: "compileAppSpecToPrompt S = Inl (unsupported_page_type x)
       \<or> compileAppSpecToPrompt S = Inl (unsupported_field_type x)
       \<or> compileAppSpecToPrompt S = Inl (unsupported_state x)" by blast
  from c obtain e where e: "compileAppSpecToPrompt S = Inl e"
    "sublist x (message e)" "sublist (js ''not supported'') (message e)"
    using message_page[of x] message_field[of x] message_state[of x] by blast
  obtain msg feat sugg where m: "e = UnsupportedAppSpecFeatureError msg feat sugg"
    by (cases e) auto
  then have "message e = msg" by simp
  with e m have "compileAppSpecToPrompt S = Inl (UnsupportedAppSpecFeatureError msg feat sugg)
     \<and> sublist x msg \<and> sublist (js ''not supported'') msg" by simp
  with x show ?thesis by blast
qed

lemmas spec_defs = minimal_spec_def with_page_type_def with_fields_def with_states_def
  with_transitions_def plain_field_def within_allow_lists_def list_of_def

lemma minimal_page_type:
  assumes "t \<in> set SUPPORTED_PAGE_TYPES"
  shows "\<exists>p. compileAppSpecToPrompt (with_page_type t minimal_spec) = Inr p"
  unfolding compile_succeeds_iff using assms
  by (simp add: spec_defs) (simp add: SUPPORTED_STATES_def js_def)

lemma minimal_field_type:
  assumes "t \<in> set SUPPORTED_FIELD_TYPES"
  shows "\<exists>p. compileAppSpecToPrompt
           (with_fields [plain_field t] (with_page_type (js ''form'') minimal_spec)) = Inr p"
  unfolding compile_succeeds_iff using assms
  by (simp add: spec_defs) (simp add: SUPPORTED_STATES_def SUPPORTED_PAGE_TYPES_def js_def)

lemma minimal_state:
  assumes "t \<in> set SUPPORTED_STATES"
  shows "\<exists>p. compileAppSpecToPrompt (with_states [t] minimal_spec) = Inr p"
  unfolding compile_succeeds_iff using assms
  by (simp add: spec_defs) (simp add: SUPPORTED_PAGE_TYPES_def js_def)

subsection \<open>The complexity error, and where a validation rule ends up\<close>




text \<open>Where an unknown rule ends up in the prompt.\<close>

lemma render_rule_unknown:
  "rule_type r \<notin> set knownRuleTypes
   \<Longrightarrow> render_rule r = rule_type r @ js '': '' @ render_rule_value (rule_value r)"
  by (simp add: render_rule_def knownRuleTypes_def Let_def)

lemma render_field_rule:
  assumes "render_field f = Inr y" and "r \<in> set (list_of (field_validation f))"
  shows "sublist (render_rule r) y"
proof -
  from assms(2) obtain rules where rules: "field_validation f = Some rules" "r \<in> set rules"
    by (cases "field_validation f") (auto simp: list_of_def)
  then have "sublist (render_rule r) (comma_list (map render_rule rules))"
    unfolding comma_list_def by (intro sublist_join) simp
  then have a: "sublist (render_rule r) (js '' validation: '' @ comma_list (map render_rule rules))"
    by (rule sublist_right)
  from assms(1) have "field_type f \<in> set SUPPORTED_FIELD_TYPES"
    by (auto simp: render_field_def split: if_splits)
  with assms(1) rules(1) have y: "y =
         js ''  - '' @ field_id f @ js '' ('' @ field_type f @ js ''): '' @ field_label f
         @ (if field_required f = Some True then js '' [required]'' else [])
         @ (case field_placeholder f of None \<Rightarrow> []
            | Some p \<Rightarrow> js '' placeholder: '' @ p)
         @ (case field_options f of None \<Rightarrow> []
            | Some opts \<Rightarrow> js '' options: '' @ comma_list (map render_option opts))
         @ (js '' validation: '' @ comma_list (map render_rule rules))
         @ (case field_condition f of None \<Rightarrow> []
            | Some c \<Rightarrow> js '' ('' @ render_condition c @ js '')'')
         @ nl"
    by (simp add: render_field_def)
  show ?thesis unfolding y
    by (intro sublist_right[of _ _ "js ''  - ''"] sublist_right[of _ _ "field_id f"]
          sublist_right[of _ _ "js '' (''"] sublist_right[of _ _ "field_type f"]
          sublist_right[of _ _ "js ''): ''"] sublist_right[of _ _ "field_label f"]
          sublist_right[of _ _ "if field_required f = Some True then js '' [required]'' else []"]
          sublist_right[of _ _ "case field_placeholder f of None \<Rightarrow> []
            | Some p \<Rightarrow> js '' placeholder: '' @ p"]
          sublist_right[of _ _ "case field_options f of None \<Rightarrow> []
            | Some opts \<Rightarrow> js '' options: '' @ comma_list (map render_option opts)"]
          sublist_left a)
qed

lemma mapE_elem:
  "mapE f xs = Inr ys \<Longrightarrow> x \<in> set xs \<Longrightarrow> \<exists>y\<in>set ys. f x = Inr y"
  by (induction xs arbitrary: ys) (auto simp: bindE_Inr_iff)

lemma render_page_rule:
  assumes "render_page p = Inr y" and "f \<in> set (list_of (page_fields p))"
    and "r \<in> set (list_of (field_validation f))"
  shows "sublist (render_rule r) y"
proof -
  from assms(1) have t: "page_type p \<in> set SUPPORTED_PAGE_TYPES"
    by (auto simp: render_page_def split: if_splits)
  with assms(1) obtain fields where
    fs: "mapE render_field (list_of (page_fields p)) = Inr fields"
    and "y = (js ''Page '' @ page_id p @ js '' ('' @ page_type p @ js '') at '' @ page_route p
         @ js '' for '' @ page_role p @ js '': '' @ page_title p
         @ (case page_description p of None \<Rightarrow> [] | Some d \<Rightarrow> js '' - '' @ d)
         @ nl)
         @ concat fields
         @ concat (map render_action (list_of (page_actions p)))"
    by (auto simp: render_page_def bindE_Inr_iff)
  then obtain A B where y: "y = A @ concat fields @ B" by blast
  from mapE_elem[OF fs assms(2)] obtain z where z: "z \<in> set fields" "render_field f = Inr z"
    by blast
  have "sublist (render_rule r) z" using render_field_rule[OF z(2) assms(3)] .
  moreover have "sublist z (concat fields)" using z(1) by (rule sublist_concat)
  ultimately have "sublist (render_rule r) (concat fields)" by (rule sublist_trans)
  then show ?thesis unfolding y by (rule sublist_mid)
qed

lemma render_pages_rule:
  assumes "render_pages ps = Inr y" and "p \<in> set ps" and "f \<in> set (list_of (page_fields p))"
    and "r \<in> set (list_of (field_validation f))"
  shows "sublist (render_rule r) y"
proof -
  from assms(1) obtain pages where
    pg: "mapE render_page ps = Inr pages" and y: "y = js ''PAGES'' @ nl @ concat pages"
    by (auto simp: render_pages_def bindE_Inr_iff)
  from mapE_elem[OF pg assms(2)] obtain z where z: "z \<in> set pages" "render_page p = Inr z"
    by blast
  have "sublist (render_rule r) z" using render_page_rule[OF z(2) assms(3,4)] .
  moreover have "sublist z (concat pages)" using z(1) by (rule sublist_concat)
  ultimately have "sublist (render_rule r) (concat pages)" by (rule sublist_trans)
  then have "sublist (render_rule r) ((js ''PAGES'' @ nl) @ concat pages)" by (rule sublist_right)
  then show ?thesis unfolding y by simp
qed

lemma compile_rule:
  assumes "compileAppSpecToPrompt S = Inr prompt" and "p \<in> set (spec_pages S)"
    and "f \<in> set (list_of (page_fields p))" and "r \<in> set (list_of (field_validation f))"
  shows "sublist (render_rule r) prompt"
proof -
  from assms(1) obtain pages workflow where pg: "render_pages (spec_pages S) = Inr pages"
    and "prompt = (render_header S
        @ js ''ROLES'' @ nl @ concat (map render_role (spec_roles S))
        @ render_theme (spec_theme S))
        @ pages
        @ (workflow
        @ render_api (spec_api S)
        @ js ''ANALYTICS'' @ nl @ concat (map render_event (analytics_events (spec_analytics S)))
        @ render_environments (spec_environments S)
        @ CONSTRAINTS)"
    unfolding compileAppSpecToPrompt_def bindE_Inr_iff by auto
  then obtain A B where y: "prompt = A @ pages @ B" by blast
  have "sublist (render_rule r) pages" using render_pages_rule[OF pg assms(2-4)] .
  then show ?thesis unfolding y by (rule sublist_mid)
qed



lemma compile_file_field:
  "compileAppSpecToPrompt file_field_custom_rule_spec
   = Inl (unsupported_field_type (js ''file''))"
  by (simp add: file_field_custom_rule_spec_def custom_rule_field_def spec_defs compile_cases
      render_pages_def render_page_def render_field_def SUPPORTED_PAGE_TYPES_def
      SUPPORTED_FIELD_TYPES_def js_def)



lemma custom_rule_spec_allowed: "within_allow_lists custom_rule_spec"
  by (simp add: custom_rule_spec_def custom_rule_field_def spec_defs SUPPORTED_PAGE_TYPES_def
      SUPPORTED_STATES_def SUPPORTED_FIELD_TYPES_def js_def)

subsection \<open>The order of the endpoints\<close>




subsection \<open>The claims about the compiler\<close>



text \<open>
  C2: a spec that holds a page type, a field type or a workflow state outside the
  allow-lists is rejected with an \<open>UnsupportedAppSpecFeatureError\<close> whose message holds
  one of these values and the words \<open>not supported\<close>; and the minimal spec with a page
  of a supported type, with a field of a supported type, or with a supported state as its
  only state, compiles.
\<close>

theorem compileAppSpecToPrompt_allow_lists:
  "(offending S \<noteq> {} \<longrightarrow>
      (\<exists>x\<in>offending S. \<exists>msg feat sugg.
         compileAppSpecToPrompt S = Inl (UnsupportedAppSpecFeatureError msg feat sugg)
         \<and> sublist x msg \<and> sublist (js ''not supported'') msg))
   \<and> (t \<in> set SUPPORTED_PAGE_TYPES \<longrightarrow>
        (\<exists>p. compileAppSpecToPrompt (with_page_type t minimal_spec) = Inr p))
   \<and> (t \<in> set SUPPORTED_FIELD_TYPES \<longrightarrow>
        (\<exists>p. compileAppSpecToPrompt
           (with_fields [plain_field t] (with_page_type (js ''form'') minimal_spec)) = Inr p))
   \<and> (t \<in> set SUPPORTED_STATES \<longrightarrow>
        (\<exists>p. compileAppSpecToPrompt (with_states [t] minimal_spec) = Inr p))"
  using compile_offending_message[of S] minimal_page_type[of t] minimal_field_type[of t]
    minimal_state[of t]
  by blast

theorem compileAppSpecToPrompt_allow_lists_witness:
  "offending (dashboard_spec 1) \<noteq> {}
   \<and> (\<exists>x\<in>offending (dashboard_spec 1). \<exists>msg feat sugg.
         compileAppSpecToPrompt (dashboard_spec 1)
           = Inl (UnsupportedAppSpecFeatureError msg feat sugg)
         \<and> sublist x msg \<and> sublist (js ''not supported'') msg)
   \<and> js ''date'' \<in> set SUPPORTED_FIELD_TYPES
   \<and> (\<exists>p. compileAppSpecToPrompt
           (with_fields [plain_field (js ''date'')] (with_page_type (js ''form'') minimal_spec))
         = Inr p)"
proof -
  have "js ''dashboard'' \<in> offending (dashboard_spec 1)"
    by (simp add: offending_def dashboard_spec_def spec_defs SUPPORTED_PAGE_TYPES_def js_def)
  then have a: "offending (dashboard_spec 1) \<noteq> {}" by blast
  have b: "js ''date'' \<in> set SUPPORTED_FIELD_TYPES"
    by (simp add: SUPPORTED_FIELD_TYPES_def)
  from a b compileAppSpecToPrompt_allow_lists[of "dashboard_spec 1" "js ''date''"]
  show ?thesis by blast
qed




text \<open>
  C6, as the model has it: in a spec that is within the allow-lists and the complexity
  bound, a validation rule whose type is none of the known ones does not make the
  compilation fail, and the prompt holds its type, a colon, a space and its value; the
  spec of the test, with the rule \<open>customRule\<close> of value \<open>x\<close>, compiles to a prompt
  that holds \<open>customRule: x\<close>.
\<close>

theorem compileAppSpecToPrompt_unknown_rule:
  assumes "within_allow_lists S"
    and "length (workflow_transitions (spec_workflow S))
           \<le> 3 * length (workflow_states (spec_workflow S))"
    and "p \<in> set (spec_pages S)" and "f \<in> set (list_of (page_fields p))"
    and "r \<in> set (list_of (field_validation f))"
    and "rule_type r \<notin> set knownRuleTypes"
  shows "\<exists>prompt. compileAppSpecToPrompt S = Inr prompt
       \<and> sublist (rule_type r @ js '': '' @ render_rule_value (rule_value r)) prompt"
proof -
  from assms(1,2) obtain prompt where c: "compileAppSpecToPrompt S = Inr prompt"
    using compile_succeeds_iff[of S] by blast
  from compile_rule[OF c assms(3,4,5)] render_rule_unknown[OF assms(6)]
  have "sublist (rule_type r @ js '': '' @ render_rule_value (rule_value r)) prompt"
    by simp
  with c show ?thesis by blast
qed

theorem compileAppSpecToPrompt_unknown_rule_witness:
  "within_allow_lists custom_rule_spec
   \<and> rule_type custom_rule \<notin> set knownRuleTypes
   \<and> (\<exists>prompt. compileAppSpecToPrompt custom_rule_spec = Inr prompt
        \<and> sublist (js ''customRule: x'') prompt)"
proof -
  have k: "rule_type custom_rule \<notin> set knownRuleTypes"
    by (simp add: custom_rule_def knownRuleTypes_def js_def)
  have l: "length (workflow_transitions (spec_workflow custom_rule_spec))
           \<le> 3 * length (workflow_states (spec_workflow custom_rule_spec))"
    by (simp add: custom_rule_spec_def spec_defs)
  have p: "hd (spec_pages custom_rule_spec) \<in> set (spec_pages custom_rule_spec)"
    by (simp add: custom_rule_spec_def spec_defs)
  have f: "custom_rule_field (js ''text'')
      \<in> set (list_of (page_fields (hd (spec_pages custom_rule_spec))))"
    by (simp add: custom_rule_spec_def spec_defs)
  have r: "custom_rule \<in> set (list_of (field_validation (custom_rule_field (js ''text''))))"
    by (simp add: custom_rule_field_def list_of_def)
  have v: "rule_type custom_rule @ js '': '' @ render_rule_value (rule_value custom_rule)
      = js ''customRule: x''"
    by (simp add: custom_rule_def render_rule_value_def js_def)
  from compileAppSpecToPrompt_unknown_rule[OF custom_rule_spec_allowed l p f r k]
  show ?thesis using custom_rule_spec_allowed k unfolding v by blast
qed

text \<open>
  C6 as stated fails: a spec may hold an unknown validation rule and still be rejected,
  here for the type \<open>file\<close> of the field that carries the rule.
\<close>

theorem compileAppSpecToPrompt_unknown_rule_counterexample:
  "custom_rule \<in> set (list_of (field_validation (custom_rule_field (js ''file''))))
   \<and> custom_rule_field (js ''file'')
       \<in> set (list_of (page_fields (hd (spec_pages file_field_custom_rule_spec))))
   \<and> rule_type custom_rule \<notin> set knownRuleTypes
   \<and> compileAppSpecToPrompt file_field_custom_rule_spec
       = Inl (unsupported_field_type (js ''file''))"
proof -
  have "rule_type custom_rule \<notin> set knownRuleTypes"
    by (simp add: custom_rule_def knownRuleTypes_def js_def)
  moreover have "custom_rule_field (js ''file'')
       \<in> set (list_of (page_fields (hd (spec_pages file_field_custom_rule_spec))))"
    by (simp add: file_field_custom_rule_spec_def spec_defs)
  moreover have
    "custom_rule \<in> set (list_of (field_validation (custom_rule_field (js ''file''))))"
    by (simp add: custom_rule_field_def list_of_def)
  ultimately show ?thesis using compile_file_field by blast
qed

end
